theory Spec2Isabelle
  imports Complex_Main "HOL-Library.Sublist"
begin

section \<open>Data model (src/types.ts)\<close>

record HairstyleSuggestion =
  name :: string
  description :: string
  reasoning :: string

record AnalysisResult =
  faceShape :: string
  suggestions :: "HairstyleSuggestion list"

record GeneratedImage =
  hairstyleName :: string
  imageUrl :: string

datatype AppState =
  IDLE | CAMERA | PREVIEW | ANALYZING | SELECTION | GENERATING | RESULTS | ERROR

section \<open>The component state of App (src/App.tsx)\<close>

text \<open>
  A camera track is live until \<open>track.stop()\<close> ends it. A \<open>MediaStream\<close> is an object
  of the browser; the component holds a reference to it in \<open>streamRef\<close>. The streams
  live in a store indexed by handles, so that stopping the tracks of the stream that
  \<open>streamRef\<close> points to stays visible after \<open>streamRef.current = null\<close>.
  The record \<open>App\<close> holds the seven \<open>useState\<close> values, \<open>streamRef\<close> and that store;
  \<open>videoRef\<close> and \<open>canvasRef\<close> are set exactly while the camera view is mounted and
  appear as arguments of \<open>capturePhoto\<close>; \<open>srcObject\<close> of the video element is not
  modelled. A handler runs to its end (or to its \<open>await\<close>) before the next event is
  handled, and the body of a state updater runs once, as in a production build.
\<close>

datatype MediaStreamTrack = Live | Ended

record App =
  appState :: AppState
  capturedImages :: "string list"
  captureStep :: nat
  analysisResult :: "AnalysisResult option"
  selectedIndices :: "nat list"
  generatedImages :: "GeneratedImage list"
  errorMsg :: "string option"
  streamRef :: "nat option"
  streams :: "nat \<Rightarrow> MediaStreamTrack list"

text \<open>The values of the \<open>useState\<close> and \<open>useRef\<close> initialisers; no stream exists yet.\<close>

definition initialApp :: App where
  "initialApp =
     \<lparr>appState = IDLE, capturedImages = [], captureStep = 0, analysisResult = None,
      selectedIndices = [], generatedImages = [], errorMsg = None, streamRef = None,
      streams = (\<lambda>_. [])\<rparr>"

subsection \<open>Camera logic\<close>

text \<open>
  \<open>startCamera\<close> is asynchronous: the part before \<open>await getUserMedia\<close> runs at once,
  the rest when the promise settles. \<open>startCamera_resolved\<close> is the continuation of the
  \<open>try\<close> block, \<open>startCamera_rejected\<close> the \<open>catch\<close> block.
\<close>

definition startCamera :: "App \<Rightarrow> App" where
  "startCamera s = s\<lparr>appState := CAMERA, captureStep := 0, capturedImages := []\<rparr>"

definition startCamera_resolved :: "nat \<Rightarrow> App \<Rightarrow> App" where
  "startCamera_resolved stream s = s\<lparr>streamRef := Some stream\<rparr>"

definition startCamera_rejected :: "App \<Rightarrow> App" where
  "startCamera_rejected s =
     s\<lparr>errorMsg := Some ''Could not access camera. Please ensure permissions are granted.'',
       appState := ERROR\<rparr>"

definition stopCamera :: "App \<Rightarrow> App" where
  "stopCamera s =
     (case streamRef s of
        Some h \<Rightarrow> s\<lparr>streams := (streams s)(h := map (\<lambda>track. Ended) (streams s h)),
                     streamRef := None\<rparr>
      | None \<Rightarrow> s)"

text \<open>
  \<open>capturePhoto refs ctx\<close>: \<open>refs\<close> says that \<open>videoRef.current\<close> and
  \<open>canvasRef.current\<close> are both set; \<open>ctx\<close> is \<open>None\<close> when
  \<open>canvas.getContext('2d')\<close> gives null, and otherwise holds the data URL that
  \<open>canvas.toDataURL\<close> returns for the frame drawn. The body of the state updater
  runs on the current buffer.
\<close>

definition capturePhoto :: "bool \<Rightarrow> string option \<Rightarrow> App \<Rightarrow> App" where
  "capturePhoto refs ctx s =
     (if refs then
        (case ctx of
           Some dataUrl \<Rightarrow>
             (let newImages = capturedImages s @ [dataUrl] in
              if length newImages = 3
              then (stopCamera s)\<lparr>appState := PREVIEW, capturedImages := newImages\<rparr>
              else s\<lparr>captureStep := captureStep s + 1, capturedImages := newImages\<rparr>)
         | None \<Rightarrow> s)
      else s)"

definition retakePhoto :: "App \<Rightarrow> App" where
  "retakePhoto s =
     startCamera
       (s\<lparr>capturedImages := [], captureStep := 0, analysisResult := None,
          generatedImages := []\<rparr>)"

definition resetApp :: "App \<Rightarrow> App" where
  "resetApp s =
     stopCamera
       (s\<lparr>capturedImages := [], captureStep := 0, analysisResult := None,
          generatedImages := [], selectedIndices := [], appState := IDLE\<rparr>)"

subsection \<open>Analysis and generation logic\<close>

text \<open>
  \<open>performAnalysis\<close> up to its \<open>await\<close>: the second component is the argument of the
  \<open>analyzeFace\<close> call it issues, \<open>None\<close> when it returns before calling.
  \<open>performAnalysis_resolved\<close> is the rest of the \<open>try\<close> block, run when the promise is
  fulfilled; \<open>performAnalysis_rejected\<close> is the \<open>catch\<close> block, given \<open>err.message\<close>
  (empty when the error has none, so that \<open>||\<close> picks the default).
\<close>

definition performAnalysis :: "App \<Rightarrow> App \<times> string list option" where
  "performAnalysis s =
     (if length (capturedImages s) = 0 then (s, None)
      else (s\<lparr>appState := ANALYZING\<rparr>, Some (capturedImages s)))"

definition performAnalysis_resolved :: "AnalysisResult \<Rightarrow> App \<Rightarrow> App" where
  "performAnalysis_resolved analysis s =
     s\<lparr>analysisResult := Some analysis, selectedIndices := [], appState := SELECTION\<rparr>"

definition performAnalysis_rejected :: "string \<Rightarrow> App \<Rightarrow> App" where
  "performAnalysis_rejected message s =
     s\<lparr>errorMsg := Some (if message = [] then ''Failed to analyze face.'' else message),
       appState := ERROR\<rparr>"

definition toggleSelection :: "nat \<Rightarrow> App \<Rightarrow> App" where
  "toggleSelection index s =
     s\<lparr>selectedIndices :=
         (let prev = selectedIndices s in
          if index \<in> set prev then filter (\<lambda>i. i \<noteq> index) prev
          else if length prev \<ge> 2 then prev
          else prev @ [index])\<rparr>"

text \<open>
  One render call is one call of \<open>generateHairstyleImage\<close>: the front image
  (\<open>capturedImages[0]\<close>, undefined on an empty buffer), the name and the description
  of a suggestion.
\<close>

type_synonym renderCall = "string option \<times> string \<times> string"

definition selectedSuggestions :: "AnalysisResult \<Rightarrow> nat list \<Rightarrow> HairstyleSuggestion list" where
  "selectedSuggestions a sel =
     map fst (filter (\<lambda>(suggestion, idx). idx \<in> set sel)
                (zip (suggestions a) [0..<length (suggestions a)]))"

text \<open>
  \<open>generateSelected\<close> up to \<open>await Promise.all\<close>: the second component lists the render
  calls issued, in the order of the promises. \<open>generateSelected_resolved\<close> runs when
  \<open>Promise.all\<close> is fulfilled, \<open>generateSelected_rejected\<close> is the \<open>catch\<close> block.
\<close>

definition generateSelected :: "App \<Rightarrow> App \<times> renderCall list option" where
  "generateSelected s =
     (case analysisResult s of
        None \<Rightarrow> (s, None)
      | Some a \<Rightarrow>
          if length (selectedIndices s) = 0 then (s, None)
          else
            (let frontImage = (case capturedImages s of [] \<Rightarrow> None | img # _ \<Rightarrow> Some img) in
             (s\<lparr>appState := GENERATING\<rparr>,
              Some (map (\<lambda>suggestion. (frontImage, name suggestion, description suggestion))
                      (selectedSuggestions a (selectedIndices s))))))"

definition generateSelected_resolved :: "GeneratedImage list \<Rightarrow> App \<Rightarrow> App" where
  "generateSelected_resolved images s = s\<lparr>generatedImages := images, appState := RESULTS\<rparr>"

definition generateSelected_rejected :: "string \<Rightarrow> App \<Rightarrow> App" where
  "generateSelected_rejected message s =
     s\<lparr>errorMsg := Some (if message = [] then ''Failed to generate images.'' else message),
       appState := ERROR\<rparr>"

subsection \<open>The download file name (renderResults)\<close>

text \<open>
  The \<open>onClick\<close> of the download button passes
  \<open>`styleai-${generated.hairstyleName.replace(/\s+/g, '-').toLowerCase()}.png`\<close>.
  A \<open>char\<close> of the model stands for the UTF-16 code unit of the same number, so the
  strings of the model are the JavaScript strings of code units below 256. On them
  \<open>isWhiteSpace\<close> holds exactly of the members of the class \<open>\s\<close>: tab, line feed,
  vertical tab, form feed, carriage return, space and no-break space (U+00A0). On
  them \<open>toLowerCase\<close> is the built-in of that name, which works code unit by code
  unit there: \<open>isUpperCase\<close> holds of the letters it changes, \<open>A\<close>..\<open>Z\<close> and U+00C0..U+00DE
  without the multiplication sign U+00D7, and each of them goes to the code unit 32
  above it; every other code unit below 256 stays.
\<close>

definition isWhiteSpace :: "char \<Rightarrow> bool" where
  "isWhiteSpace c = ((of_char c :: nat) \<in> {9, 10, 11, 12, 13, 32, 160})"

definition isUpperCase :: "char \<Rightarrow> bool" where
  "isUpperCase c =
     ((65 \<le> (of_char c :: nat) \<and> (of_char c :: nat) \<le> 90) \<or>
      (192 \<le> (of_char c :: nat) \<and> (of_char c :: nat) \<le> 222 \<and> (of_char c :: nat) \<noteq> 215))"

definition toLowerCaseChar :: "char \<Rightarrow> char" where
  "toLowerCaseChar c = (if isUpperCase c then char_of (of_char c + (32::nat)) else c)"

definition toLowerCase :: "string \<Rightarrow> string" where
  "toLowerCase str = map toLowerCaseChar str"

text \<open>
  \<open>str.replace(/\s+/g, '-')\<close>: scanning from the left, every maximal run of white
  space becomes one hyphen.
\<close>

function replaceWhiteSpace :: "string \<Rightarrow> string" where
  "replaceWhiteSpace [] = []"
| "replaceWhiteSpace (c # cs) =
     (if isWhiteSpace c then CHR ''-'' # replaceWhiteSpace (dropWhile isWhiteSpace cs)
      else c # replaceWhiteSpace cs)"
  by pat_completeness auto
termination
  by (relation "measure length") (auto simp: length_dropWhile_le less_Suc_eq_le)

definition downloadFilename :: "string \<Rightarrow> string" where
  "downloadFilename hairstyle =
     ''styleai-'' @ toLowerCase (replaceWhiteSpace hairstyle) @ ''.png''"

section \<open>The flow: user events and settling promises\<close>

text \<open>
  Around the component state, the world keeps what is in flight: the number of
  \<open>getUserMedia\<close> promises not yet settled, the \<open>analyzeFace\<close> calls not yet settled
  (by identifier, with their argument), and the \<open>Promise.all\<close> batches of render calls
  not yet settled, each with the images its fulfilled calls have produced so far.
  \<open>analyzeLog\<close> records the argument of every \<open>analyzeFace\<close> call ever issued, and
  \<open>downloads\<close> every \<open>downloadImage\<close> call (data URL, file name).
\<close>

record renderBatch =
  batchCalls :: "renderCall list"
  batchImages :: "GeneratedImage option list"

record world =
  app :: App
  mediaRequests :: nat
  nextStream :: nat
  analysisCalls :: "nat \<rightharpoonup> string list"
  nextAnalysis :: nat
  renderBatches :: "nat \<rightharpoonup> renderBatch"
  nextBatch :: nat
  analyzeLog :: "string list list"
  downloads :: "(string \<times> string) list"

definition initialWorld :: world where
  "initialWorld =
     \<lparr>app = initialApp, mediaRequests = 0, nextStream = 0, analysisCalls = Map.empty,
      nextAnalysis = 0, renderBatches = Map.empty, nextBatch = 0, analyzeLog = [],
      downloads = []\<rparr>"

text \<open>
  The clicks are those the rendered view offers (the render switch on \<open>appState\<close>);
  \<open>ClickReset\<close> stands for the close button of the camera view, both buttons of the
  results view and the button of the error view, all bound to \<open>resetApp\<close>. The other
  events settle a promise in flight: \<open>MediaGranted\<close> with the tracks of the new stream,
  \<open>AnalysisFulfilled\<close> and \<open>AnalysisRejected\<close> with the identifier of the call,
  \<open>RenderFulfilled\<close> and \<open>RenderRejected\<close> with the identifier of the batch and the
  position of the call in it; a rejection carries \<open>err.message\<close>. An analysis is
  fulfilled with a value of the type \<open>AnalysisResult\<close> that \<open>analyzeFace\<close> declares.
  An event that the current view does not offer, or that settles nothing in flight,
  leaves the world as it is.
\<close>

datatype event =
    ClickStart
  | ClickCapture "string option"
  | ClickReset
  | ClickRetake
  | ClickAnalyze
  | ClickSuggestion nat
  | ClickGenerate
  | ClickDownload nat
  | MediaGranted "MediaStreamTrack list"
  | MediaDenied
  | AnalysisFulfilled nat AnalysisResult
  | AnalysisRejected nat string
  | RenderFulfilled nat nat string
  | RenderRejected nat nat string

definition clickStart :: "world \<Rightarrow> world" where
  "clickStart w = w\<lparr>app := startCamera (app w), mediaRequests := mediaRequests w + 1\<rparr>"

definition clickRetake :: "world \<Rightarrow> world" where
  "clickRetake w = w\<lparr>app := retakePhoto (app w), mediaRequests := mediaRequests w + 1\<rparr>"

definition clickAnalyze :: "world \<Rightarrow> world" where
  "clickAnalyze w =
     (case performAnalysis (app w) of
        (s, None) \<Rightarrow> w\<lparr>app := s\<rparr>
      | (s, Some images) \<Rightarrow>
          w\<lparr>app := s,
            analysisCalls := (analysisCalls w)(nextAnalysis w \<mapsto> images),
            nextAnalysis := nextAnalysis w + 1,
            analyzeLog := analyzeLog w @ [images]\<rparr>)"

text \<open>\<open>Promise.all\<close> of no promise at all is fulfilled at once, with no image.\<close>

definition clickGenerate :: "world \<Rightarrow> world" where
  "clickGenerate w =
     (case generateSelected (app w) of
        (s, None) \<Rightarrow> w\<lparr>app := s\<rparr>
      | (s, Some calls) \<Rightarrow>
          if calls = [] then w\<lparr>app := generateSelected_resolved [] s\<rparr>
          else
            w\<lparr>app := s,
              renderBatches := (renderBatches w)
                (nextBatch w \<mapsto> \<lparr>batchCalls = calls,
                                   batchImages = replicate (length calls) None\<rparr>),
              nextBatch := nextBatch w + 1\<rparr>)"

definition mediaGranted :: "MediaStreamTrack list \<Rightarrow> world \<Rightarrow> world" where
  "mediaGranted tracks w =
     (if mediaRequests w = 0 then w
      else
        w\<lparr>app := startCamera_resolved (nextStream w)
                   ((app w)\<lparr>streams := (streams (app w))(nextStream w := tracks)\<rparr>),
          mediaRequests := mediaRequests w - 1,
          nextStream := nextStream w + 1\<rparr>)"

definition mediaDenied :: "world \<Rightarrow> world" where
  "mediaDenied w =
     (if mediaRequests w = 0 then w
      else w\<lparr>app := startCamera_rejected (app w), mediaRequests := mediaRequests w - 1\<rparr>)"

definition analysisFulfilled :: "nat \<Rightarrow> AnalysisResult \<Rightarrow> world \<Rightarrow> world" where
  "analysisFulfilled k analysis w =
     (case analysisCalls w k of
        None \<Rightarrow> w
      | Some images \<Rightarrow>
          w\<lparr>app := performAnalysis_resolved analysis (app w),
            analysisCalls := (analysisCalls w)(k := None)\<rparr>)"

definition analysisRejected :: "nat \<Rightarrow> string \<Rightarrow> world \<Rightarrow> world" where
  "analysisRejected k message w =
     (case analysisCalls w k of
        None \<Rightarrow> w
      | Some images \<Rightarrow>
          w\<lparr>app := performAnalysis_rejected message (app w),
            analysisCalls := (analysisCalls w)(k := None)\<rparr>)"

text \<open>
  A fulfilled render call yields \<open>{ hairstyleName: suggestion.name, imageUrl: url }\<close>.
  \<open>Promise.all\<close> is fulfilled when its last pending call is, with the images in the
  order of the calls; it is rejected as soon as one call is, and then the batch is
  settled for good.
\<close>

definition renderFulfilled :: "nat \<Rightarrow> nat \<Rightarrow> string \<Rightarrow> world \<Rightarrow> world" where
  "renderFulfilled b i url w =
     (case renderBatches w b of
        None \<Rightarrow> w
      | Some batch \<Rightarrow>
          if i < length (batchCalls batch) \<and> batchImages batch ! i = None then
            (let images = (batchImages batch)
                   [i := Some \<lparr>hairstyleName = fst (snd (batchCalls batch ! i)),
                                imageUrl = url\<rparr>] in
             if list_all (\<lambda>image. image \<noteq> None) images
             then w\<lparr>app := generateSelected_resolved (map the images) (app w),
                    renderBatches := (renderBatches w)(b := None)\<rparr>
             else w\<lparr>renderBatches :=
                      (renderBatches w)(b \<mapsto> batch\<lparr>batchImages := images\<rparr>)\<rparr>)
          else w)"

definition renderRejected :: "nat \<Rightarrow> nat \<Rightarrow> string \<Rightarrow> world \<Rightarrow> world" where
  "renderRejected b i message w =
     (case renderBatches w b of
        None \<Rightarrow> w
      | Some batch \<Rightarrow>
          if i < length (batchCalls batch) \<and> batchImages batch ! i = None then
            w\<lparr>app := generateSelected_rejected message (app w),
              renderBatches := (renderBatches w)(b := None)\<rparr>
          else w)"

text \<open>
  The selection view: a card is clickable unless \<open>isDisabled\<close>, the button unless
  \<open>!canGenerate\<close>. The selection and results views render nothing without an
  analysis result.
\<close>

definition isDisabled :: "App \<Rightarrow> nat \<Rightarrow> bool" where
  "isDisabled s index =
     (index \<notin> set (selectedIndices s) \<and> length (selectedIndices s) \<ge> 2)"

definition canGenerate :: "App \<Rightarrow> bool" where
  "canGenerate s = (length (selectedIndices s) > 0 \<and> length (selectedIndices s) \<le> 2)"

definition clickSuggestion :: "nat \<Rightarrow> world \<Rightarrow> world" where
  "clickSuggestion index w =
     (case analysisResult (app w) of
        None \<Rightarrow> w
      | Some a \<Rightarrow>
          if index < length (suggestions a) \<and> \<not> isDisabled (app w) index
          then w\<lparr>app := toggleSelection index (app w)\<rparr> else w)"

definition clickDownload :: "nat \<Rightarrow> world \<Rightarrow> world" where
  "clickDownload idx w =
     (if analysisResult (app w) \<noteq> None \<and> idx < length (generatedImages (app w)) then
        (let generated = generatedImages (app w) ! idx in
         w\<lparr>downloads := downloads w @
              [(imageUrl generated, downloadFilename (hairstyleName generated))]\<rparr>)
      else w)"

fun step :: "event \<Rightarrow> world \<Rightarrow> world" where
  "step ClickStart w = (if appState (app w) = IDLE then clickStart w else w)"
| "step (ClickCapture ctx) w =
     (if appState (app w) = CAMERA then w\<lparr>app := capturePhoto True ctx (app w)\<rparr> else w)"
| "step ClickReset w =
     (if appState (app w) = CAMERA \<or> appState (app w) = ERROR
         \<or> (appState (app w) = RESULTS \<and> analysisResult (app w) \<noteq> None)
      then w\<lparr>app := resetApp (app w)\<rparr> else w)"
| "step ClickRetake w = (if appState (app w) = PREVIEW then clickRetake w else w)"
| "step ClickAnalyze w = (if appState (app w) = PREVIEW then clickAnalyze w else w)"
| "step (ClickSuggestion index) w =
     (if appState (app w) = SELECTION then clickSuggestion index w else w)"
| "step ClickGenerate w =
     (if appState (app w) = SELECTION \<and> analysisResult (app w) \<noteq> None \<and> canGenerate (app w)
      then clickGenerate w else w)"
| "step (ClickDownload idx) w =
     (if appState (app w) = RESULTS then clickDownload idx w else w)"
| "step (MediaGranted tracks) w = mediaGranted tracks w"
| "step MediaDenied w = mediaDenied w"
| "step (AnalysisFulfilled k analysis) w = analysisFulfilled k analysis w"
| "step (AnalysisRejected k message) w = analysisRejected k message w"
| "step (RenderFulfilled b i url) w = renderFulfilled b i url w"
| "step (RenderRejected b i message) w = renderRejected b i message w"

fun run :: "event list \<Rightarrow> world \<Rightarrow> world" where
  "run [] w = w"
| "run (e # es) w = run es (step e w)"

section \<open>Invariants of the flow\<close>

text \<open>
  What the flow keeps true of the image buffer: the preview view shows a full buffer,
  the camera view one that is not yet full, and every \<open>analyzeFace\<close> call so far was
  given three images.
\<close>

definition bufferInvariant :: "world \<Rightarrow> bool" where
  "bufferInvariant w =
     ((appState (app w) = PREVIEW \<longrightarrow> length (capturedImages (app w)) = 3) \<and>
      (appState (app w) = CAMERA \<longrightarrow> length (capturedImages (app w)) < 3) \<and>
      list_all (\<lambda>images. length images = 3) (analyzeLog w))"

text \<open>
  What the flow keeps true of the selection: at most two indices, no index twice, a
  result behind the selection view, and only indices of suggestions of the result.
\<close>

definition selectionInvariant :: "world \<Rightarrow> bool" where
  "selectionInvariant w =
     (length (selectedIndices (app w)) \<le> 2 \<and>
      distinct (selectedIndices (app w)) \<and>
      (appState (app w) = SELECTION \<longrightarrow> analysisResult (app w) \<noteq> None) \<and>
      (\<forall>a. analysisResult (app w) = Some a \<longrightarrow>
         (\<forall>i\<in>set (selectedIndices (app w)). i < length (suggestions a))))"

section \<open>Batches of render calls\<close>

text \<open>
  \<open>renderCallsOf s\<close> lists the render calls that \<open>generateSelected\<close> issues in state
  \<open>s\<close>. \<open>pendingCalls\<close> are the positions of a batch still in flight. \<open>fulfil b\<close> turns
  a position and a URL into the event that fulfils that call of batch \<open>b\<close>;
  \<open>settlesBatch b\<close> recognises the events that settle a call of batch \<open>b\<close>.
  \<open>fillImages\<close> stores the images of a sequence of fulfilments.
\<close>

definition renderCallsOf :: "App \<Rightarrow> renderCall list" where
  "renderCallsOf s = (case snd (generateSelected s) of Some calls \<Rightarrow> calls | None \<Rightarrow> [])"

definition pendingCalls :: "GeneratedImage option list \<Rightarrow> nat set" where
  "pendingCalls images = {i. i < length images \<and> images ! i = None}"

definition fulfil :: "nat \<Rightarrow> nat \<times> string \<Rightarrow> event" where
  "fulfil b f = RenderFulfilled b (fst f) (snd f)"

fun settlesBatch :: "nat \<Rightarrow> event \<Rightarrow> bool" where
  "settlesBatch b (RenderFulfilled b' i url) = (b' = b)"
| "settlesBatch b (RenderRejected b' i message) = (b' = b)"
| "settlesBatch b e = False"

fun fillImages :: "renderCall list \<Rightarrow> (nat \<times> string) list \<Rightarrow> GeneratedImage option list \<Rightarrow> GeneratedImage option list" where
  "fillImages calls [] images = images"
| "fillImages calls (f # fs) images =
     fillImages calls fs
       (images[fst f := Some \<lparr>hairstyleName = fst (snd (calls ! fst f)), imageUrl = snd f\<rparr>])"

section \<open>Sample runs\<close>

text \<open>
  An analysis result with five suggestions, and event sequences used to run the flow:
  a complete capture, analysis and selection of suggestions 2 and 0; and runs in which
  the camera permission is still undecided while the user takes three (blank) frames
  and goes on, is then denied, and the user leaves the error view by a reset while
  a call is in flight.
\<close>

definition sampleAnalysis :: AnalysisResult where
  "sampleAnalysis =
     \<lparr>faceShape = ''Oval'',
      suggestions =
        [\<lparr>name = ''Textured Crop'', description = ''Short sides'', reasoning = ''Adds height''\<rparr>,
         \<lparr>name = ''Side Part'', description = ''Medium top'', reasoning = ''Balances the jaw''\<rparr>,
         \<lparr>name = ''Long Layers'', description = ''Shoulder length'', reasoning = ''Frames the face''\<rparr>,
         \<lparr>name = ''Buzz Cut'', description = ''Very short'', reasoning = ''Shows the shape''\<rparr>,
         \<lparr>name = ''Quiff'', description = ''Volume in front'', reasoning = ''Lengthens the face''\<rparr>]\<rparr>"

definition selectionTrace :: "event list" where
  "selectionTrace =
     [ClickStart, MediaGranted [Live], ClickCapture (Some ''front''),
      ClickCapture (Some ''left''), ClickCapture (Some ''right''), ClickAnalyze,
      AnalysisFulfilled 0 sampleAnalysis, ClickSuggestion 2, ClickSuggestion 0]"

definition resetWhileAnalyzing :: "event list" where
  "resetWhileAnalyzing =
     [ClickStart, ClickCapture (Some ''data:,''), ClickCapture (Some ''data:,''),
      ClickCapture (Some ''data:,''), ClickAnalyze, MediaDenied, ClickReset]"

definition resetWhileGenerating :: "event list" where
  "resetWhileGenerating =
     [ClickStart, ClickCapture (Some ''data:,''), ClickCapture (Some ''data:,''),
      ClickCapture (Some ''data:,''), ClickAnalyze, AnalysisFulfilled 0 sampleAnalysis,
      ClickSuggestion 0, ClickGenerate, MediaDenied, ClickReset]"

definition bothInFlight :: "event list" where
  "bothInFlight =
     [ClickStart, ClickCapture (Some ''data:,''), ClickCapture (Some ''data:,''),
      ClickCapture (Some ''data:,''), ClickAnalyze, MediaDenied, ClickReset,
      ClickStart, ClickCapture (Some ''data:,''), ClickCapture (Some ''data:,''),
      ClickCapture (Some ''data:,''), ClickAnalyze, AnalysisFulfilled 1 sampleAnalysis,
      ClickSuggestion 0, ClickGenerate, MediaDenied]"

section \<open>The remote clients (src/services/geminiService.ts)\<close>

text \<open>
  A thrown JavaScript error: \<open>new Error(message)\<close>, or the \<open>SyntaxError\<close> of
  \<open>JSON.parse\<close>. A parsed JSON value; \<open>JSON.parse(...) as AnalysisResult\<close> is a type
  assertion, so what \<open>analyzeFace\<close> returns is whatever value the text parses to.
\<close>

datatype error = Error string | SyntaxError

datatype json =
    JNull
  | JBool bool
  | JNumber real
  | JString string
  | JArray "json list"
  | JObject "(string \<times> json) list"

text \<open>
  The environment as \<open>getAiClient\<close> reads it: \<open>process.env\<close> and \<open>import.meta.env\<close>,
  each \<open>None\<close> when the object is undefined, otherwise the variables it holds.
  \<open>truthy\<close> is JavaScript's truthiness of a string that may be undefined.
\<close>

record environment =
  process_env :: "(string \<rightharpoonup> string) option"
  import_meta_env :: "(string \<rightharpoonup> string) option"

definition truthy :: "string option \<Rightarrow> bool" where
  "truthy v = (case v of None \<Rightarrow> False | Some str \<Rightarrow> str \<noteq> [])"

definition envVar :: "(string \<rightharpoonup> string) option \<Rightarrow> string \<Rightarrow> string option" where
  "envVar env var = (case env of None \<Rightarrow> None | Some vars \<Rightarrow> vars var)"

datatype GoogleGenAI = GoogleGenAI (apiKey: string)

text \<open>
  \<open>lookupApiKey\<close> is the value of the variable \<open>apiKey\<close> when \<open>getAiClient\<close> tests
  it: the \<open>try\<close> block, then the fallback.
\<close>

definition lookupApiKey :: "environment \<Rightarrow> string option" where
  "lookupApiKey env =
     (let apiKey0 =
            (if truthy (envVar (process_env env) ''API_KEY'')
             then envVar (process_env env) ''API_KEY''
             else if truthy (envVar (import_meta_env env) ''VITE_API_KEY'')
             then envVar (import_meta_env env) ''VITE_API_KEY''
             else None)
      in if \<not> truthy apiKey0 \<and> process_env env \<noteq> None
         then envVar (process_env env) ''API_KEY'' else apiKey0)"

definition getAiClient :: "environment \<Rightarrow> error + GoogleGenAI" where
  "getAiClient env =
     (if \<not> truthy (lookupApiKey env)
      then Inl (Error
        ''API Key is missing. Please check your .env file or environment configuration.'')
      else Inr (GoogleGenAI (the (lookupApiKey env))))"

text \<open>
  A request to \<open>ai.models.generateContent\<close>: the model, the parts of the contents, and
  whether the configuration asks for JSON under \<open>analysisSchema\<close> (with temperature
  0.5) or is empty. A response: its \<open>text\<close>, and its candidates for
  \<open>response.candidates?.[0]?.content?.parts\<close>; a part of a response has an
  \<open>inlineData\<close> or not, and that has \<open>data\<close> or not.
\<close>

datatype requestPart = InlineData string string | Text string

record GenerateContentParameters =
  model :: string
  parts :: "requestPart list"
  jsonSchemaConfig :: bool

record responsePart =
  inlineData :: "string option option"

datatype content = Content (contentParts: "responsePart list option")

datatype candidate = Candidate (candidateContent: "content option")

record GenerateContentResponse =
  responseText :: "string option"
  candidates :: "candidate list option"

definition ANALYSIS_MODEL :: string where
  "ANALYSIS_MODEL = ''gemini-2.5-flash''"

definition GENERATION_MODEL :: string where
  "GENERATION_MODEL = ''gemini-2.5-flash-image''"

text \<open>\<open>img.replace(/^data:image\/(png|jpeg|jpg);base64,/, "")\<close>\<close>

definition stripDataUrl :: "string \<Rightarrow> string" where
  "stripDataUrl img =
     (if prefix ''data:image/png;base64,'' img then drop (length ''data:image/png;base64,'') img
      else if prefix ''data:image/jpeg;base64,'' img
      then drop (length ''data:image/jpeg;base64,'') img
      else if prefix ''data:image/jpg;base64,'' img
      then drop (length ''data:image/jpg;base64,'') img
      else img)"

definition analysisPrompt :: string where
  "analysisPrompt =
     ''Analyze the face in these images. You are provided with 3 angles: 1. Front View, 2. Left Profile (or partial turn), 3. Right Profile (or partial turn). Use all angles to accurately identify the face shape. Suggest exactly 5 distinct, trendy hairstyles that would perfectly suit this person''
     @ [CHR 0x27] @
     ''s face shape and features. Focus on realistic, achievable styles. Provide variety (short, medium, long if applicable).''"

definition analysisRequest :: "string list \<Rightarrow> GenerateContentParameters" where
  "analysisRequest base64Images =
     \<lparr>model = ANALYSIS_MODEL,
      parts = map (\<lambda>img. InlineData ''image/jpeg'' (stripDataUrl img)) base64Images
                @ [Text analysisPrompt],
      jsonSchemaConfig = True\<rparr>"

text \<open>
  \<open>analyzeFace env JSON_parse generateContent base64Images\<close>: \<open>JSON_parse\<close> is the
  built-in parser (\<open>None\<close> where it throws), \<open>generateContent\<close> the remote service
  (\<open>Inl\<close> where the promise is rejected). The result comes with the list of the
  requests sent to the service. The \<open>catch\<close> block logs and rethrows.
\<close>

definition analyzeFace ::
  "environment \<Rightarrow> (string \<Rightarrow> json option) \<Rightarrow>
   (GoogleGenAI \<Rightarrow> GenerateContentParameters \<Rightarrow> error + GenerateContentResponse) \<Rightarrow>
   string list \<Rightarrow> (error + json) \<times> (GoogleGenAI \<times> GenerateContentParameters) list" where
  "analyzeFace env JSON_parse generateContent base64Images =
     (case getAiClient env of
        Inl e \<Rightarrow> (Inl e, [])
      | Inr ai \<Rightarrow>
          (let request = analysisRequest base64Images in
           case generateContent ai request of
             Inl e \<Rightarrow> (Inl e, [(ai, request)])
           | Inr response \<Rightarrow>
               if \<not> truthy (responseText response)
               then (Inl (Error ''No analysis generated.''), [(ai, request)])
               else
                 (case JSON_parse (the (responseText response)) of
                    None \<Rightarrow> (Inl SyntaxError, [(ai, request)])
                  | Some result \<Rightarrow> (Inr result, [(ai, request)]))))"

definition generationPrompt :: "string \<Rightarrow> string \<Rightarrow> string" where
  "generationPrompt hairstyle hairstyleDescription =
     [CHR 0x0A] @
     ''      Transform this image: The person in the photo is now wearing a '' @ hairstyle
     @ ''.'' @ [CHR 0x0A] @
     ''      '' @ hairstyleDescription @ ''.'' @ [CHR 0x0A] @
     ''      CRITICAL: Keep the person'' @ [CHR 0x27] @
     ''s facial features, expression, skin tone, and head pose EXACTLY the same as the original image. ''
     @ [CHR 0x0A] @
     ''      Only change the hair. High quality, photorealistic portrait.'' @ [CHR 0x0A] @
     ''    ''"

definition generationRequest :: "string \<Rightarrow> string \<Rightarrow> string \<Rightarrow> GenerateContentParameters" where
  "generationRequest base64Image hairstyle hairstyleDescription =
     \<lparr>model = GENERATION_MODEL,
      parts = [InlineData ''image/jpeg'' (stripDataUrl base64Image),
               Text (generationPrompt hairstyle hairstyleDescription)],
      jsonSchemaConfig = False\<rparr>"

text \<open>The loop over the parts: the first one with \<open>inlineData\<close> and non-empty \<open>data\<close>.\<close>

fun firstInlineImage :: "responsePart list \<Rightarrow> string option" where
  "firstInlineImage [] = None"
| "firstInlineImage (part # rest) =
     (case inlineData part of
        Some (Some d) \<Rightarrow> if d \<noteq> [] then Some d else firstInlineImage rest
      | _ \<Rightarrow> firstInlineImage rest)"

definition responseParts :: "GenerateContentResponse \<Rightarrow> responsePart list option" where
  "responseParts response =
     (case candidates response of
        None \<Rightarrow> None
      | Some [] \<Rightarrow> None
      | Some (first # _) \<Rightarrow>
          (case candidateContent first of
             None \<Rightarrow> None
           | Some c \<Rightarrow> contentParts c))"

definition generateHairstyleImage ::
  "environment \<Rightarrow>
   (GoogleGenAI \<Rightarrow> GenerateContentParameters \<Rightarrow> error + GenerateContentResponse) \<Rightarrow>
   string \<Rightarrow> string \<Rightarrow> string \<Rightarrow>
   (error + string) \<times> (GoogleGenAI \<times> GenerateContentParameters) list" where
  "generateHairstyleImage env generateContent base64Image hairstyle hairstyleDescription =
     (case getAiClient env of
        Inl e \<Rightarrow> (Inl e, [])
      | Inr ai \<Rightarrow>
          (let request = generationRequest base64Image hairstyle hairstyleDescription in
           case generateContent ai request of
             Inl e \<Rightarrow> (Inl e, [(ai, request)])
           | Inr response \<Rightarrow>
               (case responseParts response of
                  None \<Rightarrow> (Inl (Error ''No content in response''), [(ai, request)])
                | Some ps \<Rightarrow>
                    (case firstInlineImage ps of
                       Some d \<Rightarrow> (Inr (''data:image/png;base64,'' @ d), [(ai, request)])
                     | None \<Rightarrow>
                         (Inl (Error ''No image generated in response.''),
                          [(ai, request)])))))"

text \<open>
  The shape the analysis contract describes, stated on a parsed value: an object
  whose \<open>faceShape\<close> is a string and whose \<open>suggestions\<close> is an array of exactly five
  objects, each with non-empty strings \<open>name\<close>, \<open>description\<close> and \<open>reasoning\<close>.
\<close>

definition nonEmptyText :: "json option \<Rightarrow> bool" where
  "nonEmptyText v = (case v of Some (JString str) \<Rightarrow> str \<noteq> [] | _ \<Rightarrow> False)"

definition contractSuggestion :: "json \<Rightarrow> bool" where
  "contractSuggestion v =
     (case v of
        JObject members \<Rightarrow>
          nonEmptyText (map_of members ''name'') \<and>
          nonEmptyText (map_of members ''description'') \<and>
          nonEmptyText (map_of members ''reasoning'')
      | _ \<Rightarrow> False)"

definition contractShape :: "json \<Rightarrow> bool" where
  "contractShape v =
     (case v of
        JObject members \<Rightarrow>
          (case map_of members ''faceShape'' of
             Some (JString shape) \<Rightarrow>
               (case map_of members ''suggestions'' of
                  Some (JArray items) \<Rightarrow>
                    length items = 5 \<and> list_all contractSuggestion items
                | _ \<Rightarrow> False)
           | _ \<Rightarrow> False)
      | _ \<Rightarrow> False)"

text \<open>
  A service that answers every request with the text \<open>{"faceShape":"Oval","suggestions":[]}\<close>,
  the value that text parses to, a parser that knows this one text, and an
  environment with a key.
\<close>

definition noSuggestionsText :: string where
  "noSuggestionsText =
     ''{'' @ [CHR 0x22] @ ''faceShape'' @ [CHR 0x22] @ '':'' @ [CHR 0x22] @ ''Oval''
     @ [CHR 0x22] @ '','' @ [CHR 0x22] @ ''suggestions'' @ [CHR 0x22] @ '':[]}''"

definition noSuggestionsValue :: json where
  "noSuggestionsValue = JObject [(''faceShape'', JString ''Oval''), (''suggestions'', JArray [])]"

definition parseNoSuggestions :: "string \<Rightarrow> json option" where
  "parseNoSuggestions str = (if str = noSuggestionsText then Some noSuggestionsValue else None)"

definition answerNoSuggestions ::
  "GoogleGenAI \<Rightarrow> GenerateContentParameters \<Rightarrow> error + GenerateContentResponse" where
  "answerNoSuggestions ai request =
     Inr \<lparr>responseText = Some noSuggestionsText, candidates = None\<rparr>"

definition keyedEnvironment :: environment where
  "keyedEnvironment =
     \<lparr>process_env = Some [''API_KEY'' \<mapsto> ''secret''], import_meta_env = None\<rparr>"

definition emptyEnvironment :: environment where
  "emptyEnvironment = \<lparr>process_env = Some Map.empty, import_meta_env = None\<rparr>"

section \<open>File names: the documented rule and auxiliary predicates\<close>




section \<open>Unfolding the flow\<close>

lemmas flow_defs =
  initialWorld_def initialApp_def clickStart_def clickRetake_def clickAnalyze_def
  clickGenerate_def mediaGranted_def mediaDenied_def analysisFulfilled_def
  analysisRejected_def renderFulfilled_def renderRejected_def clickSuggestion_def
  clickDownload_def isDisabled_def canGenerate_def startCamera_def
  startCamera_resolved_def startCamera_rejected_def stopCamera_def capturePhoto_def
  retakePhoto_def resetApp_def performAnalysis_def performAnalysis_resolved_def
  performAnalysis_rejected_def toggleSelection_def generateSelected_def
  generateSelected_resolved_def generateSelected_rejected_def selectedSuggestions_def

section \<open>Reset\<close>

lemma stopCamera_fields:
  "appState (stopCamera s) = appState s"
  "capturedImages (stopCamera s) = capturedImages s"
  "captureStep (stopCamera s) = captureStep s"
  "analysisResult (stopCamera s) = analysisResult s"
  "selectedIndices (stopCamera s) = selectedIndices s"
  "generatedImages (stopCamera s) = generatedImages s"
  "errorMsg (stopCamera s) = errorMsg s"
  "streamRef (stopCamera s) = None"
  by (simp_all add: stopCamera_def split: option.splits)

lemma stopCamera_streams:
  "streamRef s = Some h \<Longrightarrow>
     streams (stopCamera s) = (streams s)(h := map (\<lambda>track. Ended) (streams s h))"
  by (simp add: stopCamera_def)

lemma stopCamera_no_stream: "streamRef s = None \<Longrightarrow> stopCamera s = s"
  by (simp add: stopCamera_def)

text \<open>
  C10: a reset keeps the stored error message: \<open>resetApp\<close> never calls
  \<open>setErrorMsg\<close>, so whatever message a failed run left is still in the state
  after the return to \<open>IDLE\<close>.
\<close>

theorem resetApp_keeps_errorMsg: "errorMsg (resetApp s) = errorMsg s"
  by (simp add: resetApp_def stopCamera_fields)

text \<open>
  C6: from any state, a reset empties the image buffer, the analysis result, the
  selection and the generated images, moves to \<open>IDLE\<close>, drops the stream reference,
  and, when a stream was held, ends every one of its tracks.
\<close>

theorem resetApp_clears_and_releases:
  "capturedImages (resetApp s) = [] \<and>
   analysisResult (resetApp s) = None \<and>
   selectedIndices (resetApp s) = [] \<and>
   generatedImages (resetApp s) = [] \<and>
   appState (resetApp s) = IDLE \<and>
   streamRef (resetApp s) = None \<and>
   (\<forall>h. streamRef s = Some h \<longrightarrow>
      streams (resetApp s) h = map (\<lambda>track. Ended) (streams s h) \<and>
      list_all (\<lambda>track. track = Ended) (streams (resetApp s) h))"
  by (simp add: resetApp_def stopCamera_fields stopCamera_streams list_all_iff)

theorem resetApp_clears_and_releases_witness:
  "streamRef (initialApp\<lparr>appState := ERROR, capturedImages := [''a''], streamRef := Some 0,
       streams := (\<lambda>_. [])(0 := [Live, Live])\<rparr>) = Some 0 \<and>
   streams (resetApp (initialApp\<lparr>appState := ERROR, capturedImages := [''a''],
       streamRef := Some 0, streams := (\<lambda>_. [])(0 := [Live, Live])\<rparr>)) 0 = [Ended, Ended] \<and>
   capturedImages (resetApp (initialApp\<lparr>appState := ERROR, capturedImages := [''a''],
       streamRef := Some 0, streams := (\<lambda>_. [])(0 := [Live, Live])\<rparr>)) = []"
  using resetApp_clears_and_releases
    [of "initialApp\<lparr>appState := ERROR, capturedImages := [''a''], streamRef := Some 0,
       streams := (\<lambda>_. [])(0 := [Live, Live])\<rparr>"]
  by (simp add: initialApp_def)

section \<open>Selection\<close>

lemma toggleSelection_other_fields:
  "toggleSelection i s = s\<lparr>selectedIndices := selectedIndices (toggleSelection i s)\<rparr>"
  by (simp add: toggleSelection_def)

lemma toggleSelection_length_le:
  "length (selectedIndices s) \<le> 2 \<Longrightarrow> length (selectedIndices (toggleSelection i s)) \<le> 2"
  by (auto simp: toggleSelection_def Let_def intro: le_trans [OF length_filter_le])

lemma toggleSelection_distinct:
  "distinct (selectedIndices s) \<Longrightarrow> distinct (selectedIndices (toggleSelection i s))"
  by (auto simp: toggleSelection_def Let_def)

lemma filter_neq_length_lt:
  "i \<in> set xs \<Longrightarrow> length (filter (\<lambda>j. j \<noteq> i) xs) < length xs"
  by (induction xs) (auto simp: less_Suc_eq_le)

lemma toggleSelection_twice_set:
  assumes "length (selectedIndices s) \<le> 2"
  shows "set (selectedIndices (toggleSelection i (toggleSelection i s))) = set (selectedIndices s)"
proof (cases "i \<in> set (selectedIndices s)")
  case True
  then have "length (filter (\<lambda>j. j \<noteq> i) (selectedIndices s)) < 2"
    using filter_neq_length_lt [of i "selectedIndices s"] assms by simp
  with True show ?thesis
    by (auto simp: toggleSelection_def Let_def)
next
  case False
  then show ?thesis
    by (auto simp: toggleSelection_def Let_def)
qed

lemma toggle_fold_length:
  "length (selectedIndices s) \<le> 2 \<Longrightarrow>
   length (selectedIndices (foldl (\<lambda>s i. toggleSelection i s) s idxs)) \<le> 2"
  by (induction idxs arbitrary: s) (simp_all add: toggleSelection_length_le)

lemma selectionInvariant_initial: "selectionInvariant initialWorld"
  by (simp add: selectionInvariant_def initialWorld_def initialApp_def)

lemma selectionInvariant_step:
  assumes "selectionInvariant w"
  shows "selectionInvariant (step e w)"
proof (cases e)
  case ClickStart
  with assms show ?thesis
    by (simp add: selectionInvariant_def clickStart_def startCamera_def)
next
  case (ClickCapture ctx)
  with assms show ?thesis
    by (auto simp: selectionInvariant_def capturePhoto_def Let_def stopCamera_fields
        split: option.splits)
next
  case ClickReset
  with assms show ?thesis
    by (simp add: selectionInvariant_def resetApp_def stopCamera_fields)
next
  case ClickRetake
  with assms show ?thesis
    by (simp add: selectionInvariant_def clickRetake_def retakePhoto_def startCamera_def)
next
  case ClickAnalyze
  with assms show ?thesis
    by (simp add: selectionInvariant_def clickAnalyze_def performAnalysis_def)
next
  case (ClickSuggestion index)
  with assms show ?thesis
    by (auto simp: selectionInvariant_def clickSuggestion_def toggleSelection_def Let_def
        split: option.splits intro: le_trans [OF length_filter_le])
next
  case ClickGenerate
  with assms show ?thesis
    by (simp add: selectionInvariant_def clickGenerate_def generateSelected_def
        generateSelected_resolved_def Let_def split: option.splits)
next
  case (ClickDownload idx)
  with assms show ?thesis
    by (simp add: selectionInvariant_def clickDownload_def Let_def)
next
  case (MediaGranted tracks)
  with assms show ?thesis
    by (simp add: selectionInvariant_def mediaGranted_def startCamera_resolved_def)
next
  case MediaDenied
  with assms show ?thesis
    by (simp add: selectionInvariant_def mediaDenied_def startCamera_rejected_def)
next
  case (AnalysisFulfilled k analysis)
  with assms show ?thesis
    by (simp add: selectionInvariant_def analysisFulfilled_def performAnalysis_resolved_def
        split: option.splits)
next
  case (AnalysisRejected k message)
  with assms show ?thesis
    by (simp add: selectionInvariant_def analysisRejected_def performAnalysis_rejected_def
        split: option.splits)
next
  case (RenderFulfilled b i url)
  with assms show ?thesis
    by (simp add: selectionInvariant_def renderFulfilled_def generateSelected_resolved_def
        Let_def split: option.splits)
next
  case (RenderRejected b i message)
  with assms show ?thesis
    by (simp add: selectionInvariant_def renderRejected_def generateSelected_rejected_def
        split: option.splits)
qed

lemma selectionInvariant_run: "selectionInvariant w \<Longrightarrow> selectionInvariant (run es w)"
  by (induction es arbitrary: w) (simp_all add: selectionInvariant_step)

lemma selectionInvariant_reachable: "selectionInvariant (run es initialWorld)"
  by (rule selectionInvariant_run [OF selectionInvariant_initial])

text \<open>
  C4: on a selection of at most two indices, toggling the same index twice gives back
  the same set of indices and touches nothing else; no sequence of toggles takes the
  selection beyond two indices, and no run of the flow at all does; toggling an
  unselected index on a selection that is already full changes nothing.
\<close>

theorem toggleSelection_twice_and_bound:
  "(length (selectedIndices s) \<le> 2 \<longrightarrow>
      set (selectedIndices (toggleSelection i (toggleSelection i s))) = set (selectedIndices s) \<and>
      toggleSelection i (toggleSelection i s) =
        s\<lparr>selectedIndices := selectedIndices (toggleSelection i (toggleSelection i s))\<rparr>) \<and>
   (length (selectedIndices s) \<le> 2 \<longrightarrow>
      length (selectedIndices (foldl (\<lambda>s i. toggleSelection i s) s idxs)) \<le> 2) \<and>
   length (selectedIndices (app (run es initialWorld))) \<le> 2 \<and>
   (length (selectedIndices s) \<ge> 2 \<and> i \<notin> set (selectedIndices s) \<longrightarrow>
      toggleSelection i s = s)"
proof (intro conjI impI)
  assume "length (selectedIndices s) \<le> 2"
  then show "set (selectedIndices (toggleSelection i (toggleSelection i s))) = set (selectedIndices s)"
    by (rule toggleSelection_twice_set)
next
  show "toggleSelection i (toggleSelection i s) =
        s\<lparr>selectedIndices := selectedIndices (toggleSelection i (toggleSelection i s))\<rparr>"
    by (simp add: toggleSelection_def)
next
  assume "length (selectedIndices s) \<le> 2"
  then show "length (selectedIndices (foldl (\<lambda>s i. toggleSelection i s) s idxs)) \<le> 2"
    by (rule toggle_fold_length)
next
  show "length (selectedIndices (app (run es initialWorld))) \<le> 2"
    using selectionInvariant_reachable [of es] by (simp add: selectionInvariant_def)
next
  assume "2 \<le> length (selectedIndices s) \<and> i \<notin> set (selectedIndices s)"
  then show "toggleSelection i s = s"
    by (simp add: toggleSelection_def)
qed

theorem toggleSelection_twice_and_bound_witness:
  "selectedIndices (toggleSelection 0 (toggleSelection 0 (initialApp\<lparr>selectedIndices := [0, 1]\<rparr>))) = [1, 0] \<and>
   set (selectedIndices (toggleSelection 0 (toggleSelection 0 (initialApp\<lparr>selectedIndices := [0, 1]\<rparr>)))) = {0, 1} \<and>
   length (selectedIndices (foldl (\<lambda>s i. toggleSelection i s) (initialApp\<lparr>selectedIndices := [0, 1]\<rparr>) [2, 3, 1, 4])) \<le> 2 \<and>
   selectedIndices (app (run (selectionTrace @ [ClickSuggestion 1, ClickSuggestion 3]) initialWorld)) = [2, 0] \<and>
   length (selectedIndices (app (run (selectionTrace @ [ClickSuggestion 1, ClickSuggestion 3]) initialWorld))) \<le> 2 \<and>
   toggleSelection 2 (initialApp\<lparr>selectedIndices := [0, 1]\<rparr>) = initialApp\<lparr>selectedIndices := [0, 1]\<rparr>"
  using toggleSelection_twice_and_bound [of "initialApp\<lparr>selectedIndices := [0, 1]\<rparr>" 0 "[2, 3, 1, 4]"
      "selectionTrace @ [ClickSuggestion 1, ClickSuggestion 3]"]
    toggleSelection_twice_and_bound [of "initialApp\<lparr>selectedIndices := [0, 1]\<rparr>" 2 "[]" "[]"]
  by (auto simp: selectionTrace_def flow_defs sampleAnalysis_def)

section \<open>Capture\<close>

text \<open>
  C7: from an empty buffer, three successful captures leave exactly the three frames,
  in the order taken (front, left, right); the third one moves to \<open>PREVIEW\<close>, drops the
  stream reference and ends every track of the stream that was held, while after the
  second one the state, the stream reference and the streams are still untouched.
\<close>

theorem capturePhoto_three_times:
  assumes "capturedImages s = []"
  shows "capturedImages (capturePhoto True (Some right) (capturePhoto True (Some left)
            (capturePhoto True (Some front) s))) = [front, left, right] \<and>
         appState (capturePhoto True (Some right) (capturePhoto True (Some left)
            (capturePhoto True (Some front) s))) = PREVIEW \<and>
         streamRef (capturePhoto True (Some right) (capturePhoto True (Some left)
            (capturePhoto True (Some front) s))) = None \<and>
         (\<forall>h. streamRef s = Some h \<longrightarrow>
            list_all (\<lambda>track. track = Ended)
              (streams (capturePhoto True (Some right) (capturePhoto True (Some left)
                 (capturePhoto True (Some front) s))) h)) \<and>
         capturedImages (capturePhoto True (Some left) (capturePhoto True (Some front) s)) =
           [front, left] \<and>
         appState (capturePhoto True (Some left) (capturePhoto True (Some front) s)) =
           appState s \<and>
         streamRef (capturePhoto True (Some left) (capturePhoto True (Some front) s)) =
           streamRef s \<and>
         streams (capturePhoto True (Some left) (capturePhoto True (Some front) s)) =
           streams s"
  using assms
  by (auto simp: capturePhoto_def Let_def stopCamera_def list_all_iff split: option.splits)

theorem capturePhoto_three_times_witness:
  "capturedImages (initialApp\<lparr>appState := CAMERA, streamRef := Some 0,
       streams := (\<lambda>_. [])(0 := [Live])\<rparr>) = [] \<and>
   capturedImages (capturePhoto True (Some ''r'') (capturePhoto True (Some ''l'')
      (capturePhoto True (Some ''f'') (initialApp\<lparr>appState := CAMERA, streamRef := Some 0,
         streams := (\<lambda>_. [])(0 := [Live])\<rparr>)))) = [''f'', ''l'', ''r''] \<and>
   streams (capturePhoto True (Some ''r'') (capturePhoto True (Some ''l'')
      (capturePhoto True (Some ''f'') (initialApp\<lparr>appState := CAMERA, streamRef := Some 0,
         streams := (\<lambda>_. [])(0 := [Live])\<rparr>)))) 0 = [Ended]"
  using capturePhoto_three_times
    [of "initialApp\<lparr>appState := CAMERA, streamRef := Some 0,
       streams := (\<lambda>_. [])(0 := [Live])\<rparr>" "''r''" "''l''" "''f''"]
  by (simp add: initialApp_def capturePhoto_def stopCamera_def)

section \<open>Analysis is only reached with three images\<close>

lemma bufferInvariant_initial: "bufferInvariant initialWorld"
  by (simp add: bufferInvariant_def initialWorld_def initialApp_def)

lemma bufferInvariant_step:
  assumes "bufferInvariant w"
  shows "bufferInvariant (step e w)"
proof (cases e)
  case ClickStart
  with assms show ?thesis
    by (simp add: bufferInvariant_def clickStart_def startCamera_def)
next
  case (ClickCapture ctx)
  with assms show ?thesis
    by (auto simp: bufferInvariant_def capturePhoto_def Let_def stopCamera_fields
        split: option.splits)
next
  case ClickReset
  with assms show ?thesis
    by (simp add: bufferInvariant_def resetApp_def stopCamera_fields)
next
  case ClickRetake
  with assms show ?thesis
    by (simp add: bufferInvariant_def clickRetake_def retakePhoto_def startCamera_def)
next
  case ClickAnalyze
  with assms show ?thesis
    by (simp add: bufferInvariant_def clickAnalyze_def performAnalysis_def)
next
  case (ClickSuggestion index)
  with assms show ?thesis
    by (simp add: bufferInvariant_def clickSuggestion_def toggleSelection_def
        split: option.splits)
next
  case ClickGenerate
  with assms show ?thesis
    by (simp add: bufferInvariant_def clickGenerate_def generateSelected_def
        generateSelected_resolved_def Let_def split: option.splits)
next
  case (ClickDownload idx)
  with assms show ?thesis
    by (simp add: bufferInvariant_def clickDownload_def Let_def)
next
  case (MediaGranted tracks)
  with assms show ?thesis
    by (simp add: bufferInvariant_def mediaGranted_def startCamera_resolved_def)
next
  case MediaDenied
  with assms show ?thesis
    by (simp add: bufferInvariant_def mediaDenied_def startCamera_rejected_def)
next
  case (AnalysisFulfilled k analysis)
  with assms show ?thesis
    by (simp add: bufferInvariant_def analysisFulfilled_def performAnalysis_resolved_def
        split: option.splits)
next
  case (AnalysisRejected k message)
  with assms show ?thesis
    by (simp add: bufferInvariant_def analysisRejected_def performAnalysis_rejected_def
        split: option.splits)
next
  case (RenderFulfilled b i url)
  with assms show ?thesis
    by (simp add: bufferInvariant_def renderFulfilled_def generateSelected_resolved_def
        Let_def split: option.splits)
next
  case (RenderRejected b i message)
  with assms show ?thesis
    by (simp add: bufferInvariant_def renderRejected_def generateSelected_rejected_def
        split: option.splits)
qed

lemma bufferInvariant_run: "bufferInvariant w \<Longrightarrow> bufferInvariant (run es w)"
  by (induction es arbitrary: w) (simp_all add: bufferInvariant_step)

text \<open>
  C5: whatever the user clicks and however the promises in flight settle, every
  \<open>analyzeFace\<close> call issued was given exactly three images; the preview view, the
  only one that offers the analysis, always shows a buffer of three, and that buffer
  is what \<open>performAnalysis\<close> passes on.
\<close>

theorem analyzeFace_only_with_three_images:
  "list_all (\<lambda>images. length images = 3) (analyzeLog (run es initialWorld)) \<and>
   (appState (app (run es initialWorld)) = PREVIEW \<longrightarrow>
      length (capturedImages (app (run es initialWorld))) = 3 \<and>
      snd (performAnalysis (app (run es initialWorld))) =
        Some (capturedImages (app (run es initialWorld))))"
  using bufferInvariant_run [OF bufferInvariant_initial, of es]
  by (auto simp: bufferInvariant_def performAnalysis_def)

theorem analyzeFace_only_with_three_images_witness:
  "analyzeLog (run [ClickStart, MediaGranted [Live], ClickCapture (Some ''f''),
      ClickCapture (Some ''l''), ClickCapture (Some ''r''), ClickAnalyze] initialWorld) =
     [[''f'', ''l'', ''r'']] \<and>
   list_all (\<lambda>images. length images = 3)
     (analyzeLog (run [ClickStart, MediaGranted [Live], ClickCapture (Some ''f''),
        ClickCapture (Some ''l''), ClickCapture (Some ''r''), ClickAnalyze] initialWorld)) \<and>
   appState (app (run [ClickStart, MediaGranted [Live], ClickCapture (Some ''f''),
      ClickCapture (Some ''l''), ClickCapture (Some ''r'')] initialWorld)) = PREVIEW \<and>
   length (capturedImages (app (run [ClickStart, MediaGranted [Live],
      ClickCapture (Some ''f''), ClickCapture (Some ''l''), ClickCapture (Some ''r'')]
      initialWorld))) = 3"
  using analyzeFace_only_with_three_images
    [of "[ClickStart, MediaGranted [Live], ClickCapture (Some ''f''),
      ClickCapture (Some ''l''), ClickCapture (Some ''r''), ClickAnalyze]"]
    analyzeFace_only_with_three_images
    [of "[ClickStart, MediaGranted [Live], ClickCapture (Some ''f''),
      ClickCapture (Some ''l''), ClickCapture (Some ''r'')]"]
  by (simp add: initialWorld_def initialApp_def clickStart_def startCamera_def
      mediaGranted_def startCamera_resolved_def capturePhoto_def stopCamera_def
      clickAnalyze_def performAnalysis_def)

section \<open>Generation: one call per selected suggestion, all or nothing\<close>

lemma zip_with_indices:
  "zip xs [0..<length xs] = map (\<lambda>i. (xs ! i, i)) [0..<length xs]"
  by (rule nth_equalityI) simp_all

lemma selectedSuggestions_nth:
  "selectedSuggestions a sel =
     map (\<lambda>i. suggestions a ! i) (filter (\<lambda>i. i \<in> set sel) [0..<length (suggestions a)])"
  unfolding selectedSuggestions_def zip_with_indices
  by (simp add: filter_map comp_def)

lemma filter_upt_sorted_list:
  assumes "\<forall>i\<in>set sel. i < n"
  shows "filter (\<lambda>i. i \<in> set sel) [0..<n] = sorted_list_of_set (set sel)"
proof (rule sorted_distinct_set_unique)
  show "sorted (filter (\<lambda>i. i \<in> set sel) [0..<n])" by (simp add: sorted_wrt_filter)
  show "set (filter (\<lambda>i. i \<in> set sel) [0..<n]) = set (sorted_list_of_set (set sel))"
    using assms by auto
qed simp_all

lemma selectedSuggestions_sorted:
  assumes "\<forall>i\<in>set sel. i < length (suggestions a)"
  shows "selectedSuggestions a sel = map (\<lambda>i. suggestions a ! i) (sorted_list_of_set (set sel))"
  by (simp add: selectedSuggestions_nth filter_upt_sorted_list [OF assms])

lemma length_selectedSuggestions:
  assumes "\<forall>i\<in>set sel. i < length (suggestions a)" "distinct sel"
  shows "length (selectedSuggestions a sel) = length sel"
  using assms by (simp add: selectedSuggestions_sorted distinct_card)


lemma pendingCalls_update:
  "i \<in> pendingCalls images \<Longrightarrow> pendingCalls (images[i := Some x]) = pendingCalls images - {i}"
  by (auto simp: pendingCalls_def nth_list_update)

lemma all_fulfilled_iff: "list_all (\<lambda>image. image \<noteq> None) images \<longleftrightarrow> pendingCalls images = {}"
  by (auto simp: pendingCalls_def list_all_length)

lemma run_fulfil:
  assumes "renderBatches w b = Some \<lparr>batchCalls = calls, batchImages = images\<rparr>"
    and "length images = length calls"
    and "distinct (map fst fs)"
    and "fst ` set fs \<subseteq> pendingCalls images"
  shows "run (map (fulfil b) fs) w =
     (if fst ` set fs = pendingCalls images \<and> fs \<noteq> []
      then w\<lparr>app := generateSelected_resolved (map the (fillImages calls fs images)) (app w),
             renderBatches := (renderBatches w)(b := None)\<rparr>
      else w\<lparr>renderBatches := (renderBatches w)
             (b \<mapsto> \<lparr>batchCalls = calls, batchImages = fillImages calls fs images\<rparr>)\<rparr>)"
  using assms
proof (induction fs arbitrary: w images)
  case Nil
  then show ?case by (simp add: map_upd_triv)
next
  case (Cons f fs)
  let ?i = "fst f"
  let ?images = "images[?i := Some \<lparr>hairstyleName = fst (snd (calls ! ?i)), imageUrl = snd f\<rparr>]"
  from Cons.prems have i: "?i \<in> pendingCalls images" by simp
  then have i_lt: "?i < length calls" and i_none: "images ! ?i = None"
    using Cons.prems(2) by (simp_all add: pendingCalls_def)
  have pend: "pendingCalls ?images = pendingCalls images - {?i}"
    using i by (rule pendingCalls_update)
  from Cons.prems have dist: "distinct (map fst fs)" and notin: "?i \<notin> fst ` set fs"
    by simp_all
  from Cons.prems(4) have "fst ` set fs \<subseteq> pendingCalls images" by simp
  with notin have rest: "fst ` set fs \<subseteq> pendingCalls ?images"
    unfolding pend by blast
  show ?case
  proof (cases "pendingCalls ?images = {}")
    case True
    with rest have "fs = []" by auto
    moreover have "pendingCalls images = {?i}" using True pend i by auto
    moreover have "list_all (\<lambda>image. image \<noteq> None) ?images"
      using True by (simp only: all_fulfilled_iff)
    ultimately show ?thesis
      using Cons.prems(1) i_lt i_none
      by (simp add: fulfil_def renderFulfilled_def Let_def)
  next
    case False
    let ?w = "w\<lparr>renderBatches := (renderBatches w)
                (b \<mapsto> \<lparr>batchCalls = calls, batchImages = ?images\<rparr>)\<rparr>"
    have "\<not> list_all (\<lambda>image. image \<noteq> None) ?images"
      using False by (simp only: all_fulfilled_iff not_False_eq_True)
    then have step: "step (fulfil b f) w = ?w"
      using Cons.prems(1) i_lt i_none
      by (simp add: fulfil_def renderFulfilled_def Let_def)
    have batch: "renderBatches ?w b = Some \<lparr>batchCalls = calls, batchImages = ?images\<rparr>"
      by simp
    have len: "length ?images = length calls" using Cons.prems(2) by simp
    have run_eq: "run (map (fulfil b) (f # fs)) w = run (map (fulfil b) fs) ?w"
      using step by simp
    have fill_eq: "fillImages calls (f # fs) images = fillImages calls fs ?images"
      by simp
    note IH = Cons.IH [OF batch len dist rest]
    show ?thesis
    proof (cases "fst ` set fs = pendingCalls ?images")
      case True
      then have "fs \<noteq> []" using False by auto
      with True have c1: "fst ` set fs = pendingCalls ?images \<and> fs \<noteq> []" ..
      have "insert x (P - {x}) = P" if "x \<in> P" for P :: "nat set" and x
        using that by blast
      from this [OF i] have "fst ` set (f # fs) = pendingCalls images"
        using True unfolding pend by simp
      then have c2: "fst ` set (f # fs) = pendingCalls images \<and> f # fs \<noteq> []"
        by blast
      show ?thesis
        unfolding run_eq IH if_P [OF c1] if_P [OF c2] fill_eq by simp
    next
      case neq: False
      then have c1: "\<not> (fst ` set fs = pendingCalls ?images \<and> fs \<noteq> [])"
        by blast
      have aux: "A = P - {x}" if "x \<notin> A" "insert x A = P" for A P :: "nat set" and x
        using that by blast
      have "fst ` set (f # fs) \<noteq> pendingCalls images"
      proof
        assume "fst ` set (f # fs) = pendingCalls images"
        then have "insert ?i (fst ` set fs) = pendingCalls images" by simp
        then have "fst ` set fs = pendingCalls images - {?i}" by (rule aux [OF notin])
        then have "fst ` set fs = pendingCalls ?images" by (simp only: pend)
        with neq show False by (rule notE)
      qed
      then have c2: "\<not> (fst ` set (f # fs) = pendingCalls images \<and> f # fs \<noteq> [])"
        by blast
      show ?thesis
        unfolding run_eq IH if_not_P [OF c1] if_not_P [OF c2] fill_eq by simp
    qed
  qed
qed


lemma length_fillImages: "length (fillImages calls fs images) = length images"
  by (induction fs arbitrary: images) simp_all

lemma fillImages_nth:
  assumes "distinct (map fst fs)" and "j < length images"
  shows "fillImages calls fs images ! j =
     (case map_of fs j of
        Some url \<Rightarrow> Some \<lparr>hairstyleName = fst (snd (calls ! j)), imageUrl = url\<rparr>
      | None \<Rightarrow> images ! j)"
  using assms
proof (induction fs arbitrary: images)
  case Nil
  then show ?case by simp
next
  case (Cons f fs)
  obtain i url where f: "f = (i, url)" by (cases f)
  from Cons.prems have notin: "i \<notin> fst ` set fs" and dist: "distinct (map fst fs)"
    by (simp_all add: f)
  from notin have none: "map_of fs i = None"
    by (simp add: map_of_eq_None_iff)
  show ?case
    using Cons.IH [OF dist, of "images[i := Some \<lparr>hairstyleName = fst (snd (calls ! i)), imageUrl = url\<rparr>]"]
      Cons.prems(2) none
    by (auto simp: f nth_list_update split: option.splits)
qed

lemma fillImages_complete:
  assumes "distinct (map fst fs)" and "fst ` set fs = {0..<n}"
  shows "map the (fillImages calls fs (replicate n None)) =
     map (\<lambda>j. \<lparr>hairstyleName = fst (snd (calls ! j)), imageUrl = the (map_of fs j)\<rparr>) [0..<n]"
proof (rule nth_equalityI)
  show "length (map the (fillImages calls fs (replicate n None))) =
    length (map (\<lambda>j. \<lparr>hairstyleName = fst (snd (calls ! j)), imageUrl = the (map_of fs j)\<rparr>) [0..<n])"
    by (simp add: length_fillImages)
next
  fix j
  assume "j < length (map the (fillImages calls fs (replicate n None)))"
  then have j: "j < n" by (simp add: length_fillImages)
  then have "j \<in> fst ` set fs" using assms(2) by simp
  then obtain url where "map_of fs j = Some url"
    by (metis map_of_eq_None_iff not_None_eq)
  then show "map the (fillImages calls fs (replicate n None)) ! j =
    map (\<lambda>j. \<lparr>hairstyleName = fst (snd (calls ! j)), imageUrl = the (map_of fs j)\<rparr>) [0..<n] ! j"
    using j fillImages_nth [OF assms(1), of j "replicate n None" calls]
    by (simp add: length_fillImages)
qed

lemma pendingCalls_replicate: "pendingCalls (replicate n None) = {0..<n}"
  by (auto simp: pendingCalls_def)

lemma run_settled:
  "renderBatches w b = None \<Longrightarrow> list_all (settlesBatch b) later \<Longrightarrow> run later w = w"
proof (induction later)
  case Nil
  then show ?case by simp
next
  case (Cons e later)
  from Cons.prems have "step e w = w"
    by (cases e) (simp_all add: renderFulfilled_def renderRejected_def)
  with Cons show ?case by simp
qed

lemma run_append: "run (es @ es') w = run es' (run es w)"
  by (induction es arbitrary: w) simp_all


lemma generateSelected_issues:
  assumes "analysisResult s = Some a" and "selectedIndices s \<noteq> []"
  shows "generateSelected s =
     (s\<lparr>appState := GENERATING\<rparr>,
      Some (map (\<lambda>suggestion.
                  (case capturedImages s of [] \<Rightarrow> None | img # _ \<Rightarrow> Some img,
                   name suggestion, description suggestion))
              (selectedSuggestions a (selectedIndices s))))"
  using assms by (simp add: generateSelected_def Let_def)

lemma renderCallsOf_eq:
  assumes "analysisResult s = Some a" and "selectedIndices s \<noteq> []"
    and "\<forall>i\<in>set (selectedIndices s). i < length (suggestions a)"
  shows "renderCallsOf s =
     map (\<lambda>i. (case capturedImages s of [] \<Rightarrow> None | img # _ \<Rightarrow> Some img,
               name (suggestions a ! i), description (suggestions a ! i)))
       (sorted_list_of_set (set (selectedIndices s)))"
  using assms(3)
  by (simp add: renderCallsOf_def generateSelected_issues [OF assms(1,2)]
      selectedSuggestions_sorted comp_def)

lemma length_renderCallsOf:
  assumes "analysisResult s = Some a" and "selectedIndices s \<noteq> []"
    and "\<forall>i\<in>set (selectedIndices s). i < length (suggestions a)"
    and "distinct (selectedIndices s)"
  shows "length (renderCallsOf s) = length (selectedIndices s)"
  using assms(4) by (simp add: renderCallsOf_eq [OF assms(1-3)] distinct_card)

lemma clickGenerate_issues:
  assumes "analysisResult (app w) = Some a" and "selectedIndices (app w) \<noteq> []"
    and "renderCallsOf (app w) \<noteq> []"
  shows "clickGenerate w =
     w\<lparr>app := (app w)\<lparr>appState := GENERATING\<rparr>,
       renderBatches := (renderBatches w)
         (nextBatch w \<mapsto> \<lparr>batchCalls = renderCallsOf (app w),
            batchImages = replicate (length (renderCallsOf (app w))) None\<rparr>),
       nextBatch := nextBatch w + 1\<rparr>"
  using assms(3)
  by (simp add: clickGenerate_def renderCallsOf_def generateSelected_issues [OF assms(1,2)])

lemma selectionTrace_app:
  "app (run selectionTrace initialWorld) =
     \<lparr>appState = SELECTION, capturedImages = [''front'', ''left'', ''right''],
      captureStep = 2, analysisResult = Some sampleAnalysis, selectedIndices = [2, 0],
      generatedImages = [], errorMsg = None, streamRef = None,
      streams = (\<lambda>_. [])(0 := [Ended])\<rparr>"
  by (simp add: selectionTrace_def flow_defs Let_def sampleAnalysis_def)

lemma selectionTrace_nextBatch: "nextBatch (run selectionTrace initialWorld) = 0"
  by (simp add: selectionTrace_def flow_defs Let_def sampleAnalysis_def)

text \<open>
  In every run of the flow that ends in the selection view, the selection is one that
  the statement below is about: there is an analysis result, and the selection holds
  at most two distinct indices of its suggestions.
\<close>

lemma reachable_selection_view:
  assumes "appState (app (run es initialWorld)) = SELECTION"
  shows "\<exists>a. analysisResult (app (run es initialWorld)) = Some a \<and>
     length (selectedIndices (app (run es initialWorld))) \<le> 2 \<and>
     distinct (selectedIndices (app (run es initialWorld))) \<and>
     (\<forall>i\<in>set (selectedIndices (app (run es initialWorld))). i < length (suggestions a))"
  using selectionInvariant_reachable [of es] assms
  by (auto simp: selectionInvariant_def)

text \<open>
  C1: in the selection view, with an analysis result and a selection of one or two
  distinct valid indices, \<open>generateSelected\<close> issues exactly as many render calls as
  indices are selected, for the selected suggestions in the order of their indices.
  While some call of the batch is still in flight and none has failed, the state
  stays \<open>GENERATING\<close> with nothing else changed; once all are fulfilled, in whatever
  order, the state is \<open>RESULTS\<close> and the generated images are exactly one per call,
  named after the selected suggestions in index order. If one call is rejected,
  whatever was fulfilled before and whatever settles afterwards, the state is \<open>ERROR\<close>
  with the message stored and the generated images untouched.
\<close>

theorem generateSelected_all_or_nothing:
  assumes view: "appState (app w) = SELECTION"
    and result: "analysisResult (app w) = Some a"
    and size: "1 \<le> length (selectedIndices (app w))" "length (selectedIndices (app w)) \<le> 2"
    and dist: "distinct (selectedIndices (app w))"
    and valid: "\<forall>i\<in>set (selectedIndices (app w)). i < length (suggestions a)"
  shows
    "length (renderCallsOf (app w)) = length (selectedIndices (app w)) \<and>
     map (\<lambda>call. fst (snd call)) (renderCallsOf (app w)) =
       map (\<lambda>i. name (suggestions a ! i))
         (sorted_list_of_set (set (selectedIndices (app w)))) \<and>
     step ClickGenerate w =
       w\<lparr>app := (app w)\<lparr>appState := GENERATING\<rparr>,
         renderBatches := (renderBatches w)
           (nextBatch w \<mapsto> \<lparr>batchCalls = renderCallsOf (app w),
              batchImages = replicate (length (selectedIndices (app w))) None\<rparr>),
         nextBatch := nextBatch w + 1\<rparr> \<and>
     (\<forall>fs. distinct (map fst fs) \<and> fst ` set fs \<subset> {0..<length (selectedIndices (app w))} \<longrightarrow>
        app (run (ClickGenerate # map (fulfil (nextBatch w)) fs) w) =
          (app w)\<lparr>appState := GENERATING\<rparr>) \<and>
     (\<forall>fs. distinct (map fst fs) \<and> fst ` set fs = {0..<length (selectedIndices (app w))} \<longrightarrow>
        app (run (ClickGenerate # map (fulfil (nextBatch w)) fs) w) =
          (app w)\<lparr>generatedImages :=
              map (\<lambda>j. \<lparr>hairstyleName =
                           name (suggestions a !
                             (sorted_list_of_set (set (selectedIndices (app w))) ! j)),
                         imageUrl = the (map_of fs j)\<rparr>)
                [0..<length (selectedIndices (app w))],
            appState := RESULTS\<rparr>) \<and>
     (\<forall>fs j message later.
        distinct (map fst fs) \<and> fst ` set fs \<subseteq> {0..<length (selectedIndices (app w))} \<and>
        j < length (selectedIndices (app w)) \<and> j \<notin> fst ` set fs \<and>
        list_all (settlesBatch (nextBatch w)) later \<longrightarrow>
        app (run (ClickGenerate # map (fulfil (nextBatch w)) fs
                    @ RenderRejected (nextBatch w) j message # later) w) =
          (app w)\<lparr>errorMsg :=
              Some (if message = [] then ''Failed to generate images.'' else message),
            appState := ERROR\<rparr>)"
proof -
  let ?s = "app w"
  let ?sel = "selectedIndices ?s"
  let ?n = "length ?sel"
  let ?calls = "renderCallsOf ?s"
  let ?b = "nextBatch w"
  let ?w1 = "w\<lparr>app := ?s\<lparr>appState := GENERATING\<rparr>,
         renderBatches := (renderBatches w)
           (?b \<mapsto> \<lparr>batchCalls = ?calls, batchImages = replicate ?n None\<rparr>),
         nextBatch := ?b + 1\<rparr>"
  from size(1) have ne: "?sel \<noteq> []" by (cases ?sel) simp_all
  have len: "length ?calls = ?n"
    by (rule length_renderCallsOf [OF result ne valid dist])
  have calls: "?calls =
     map (\<lambda>i. (case capturedImages ?s of [] \<Rightarrow> None | img # _ \<Rightarrow> Some img,
               name (suggestions a ! i), description (suggestions a ! i)))
       (sorted_list_of_set (set ?sel))"
    by (rule renderCallsOf_eq [OF result ne valid])
  have names: "map (\<lambda>call. fst (snd call)) ?calls =
       map (\<lambda>i. name (suggestions a ! i)) (sorted_list_of_set (set ?sel))"
    by (simp add: calls comp_def)
  have name_nth: "fst (snd (?calls ! j)) = name (suggestions a ! (sorted_list_of_set (set ?sel) ! j))"
    if "j < ?n" for j
  proof -
    from that len have "j < length ?calls" by simp
    then have "map (\<lambda>call. fst (snd call)) ?calls ! j = fst (snd (?calls ! j))"
      by (rule nth_map)
    moreover have "j < length (sorted_list_of_set (set ?sel))"
      using that dist by (simp add: distinct_card)
    then have "map (\<lambda>i. name (suggestions a ! i)) (sorted_list_of_set (set ?sel)) ! j =
        name (suggestions a ! (sorted_list_of_set (set ?sel) ! j))"
      by (rule nth_map)
    ultimately show ?thesis by (simp only: names)
  qed
  from len ne have calls_ne: "?calls \<noteq> []" by auto
  have can: "canGenerate ?s" using size ne by (simp add: canGenerate_def)
  have click: "step ClickGenerate w = ?w1"
    using view result can clickGenerate_issues [OF result ne calls_ne] by (simp add: len)
  have batch: "renderBatches ?w1 ?b = Some \<lparr>batchCalls = ?calls, batchImages = replicate ?n None\<rparr>"
    by simp
  have len_images: "length (replicate ?n (None :: GeneratedImage option)) = length ?calls"
    by (simp add: len)
  note fulfilled = run_fulfil [OF batch len_images, unfolded pendingCalls_replicate]
  have pending: "app (run (ClickGenerate # map (fulfil ?b) fs) w) = ?s\<lparr>appState := GENERATING\<rparr>"
    if hyp: "distinct (map fst fs) \<and> fst ` set fs \<subset> {0..<?n}" for fs
  proof -
    from hyp have d: "distinct (map fst fs)" and strict: "fst ` set fs \<subset> {0..<?n}"
      by (rule conjunct1, rule conjunct2)
    from strict have sub: "fst ` set fs \<subseteq> {0..<?n}" by (rule psubset_imp_subset)
    from strict have neq: "fst ` set fs \<noteq> {0..<?n}" by (simp only: psubset_eq simp_thms)
    from neq have c: "\<not> (fst ` set fs = {0..<?n} \<and> fs \<noteq> [])" by blast
    show ?thesis
      unfolding run.simps click fulfilled [OF d sub] if_not_P [OF c] by simp
  qed
  have complete: "app (run (ClickGenerate # map (fulfil ?b) fs) w) =
      ?s\<lparr>generatedImages :=
          map (\<lambda>j. \<lparr>hairstyleName = name (suggestions a ! (sorted_list_of_set (set ?sel) ! j)),
                     imageUrl = the (map_of fs j)\<rparr>) [0..<?n],
        appState := RESULTS\<rparr>"
    if hyp: "distinct (map fst fs) \<and> fst ` set fs = {0..<?n}" for fs
  proof -
    from hyp have that: "distinct (map fst fs)" "fst ` set fs = {0..<?n}"
      by (rule conjunct1, rule conjunct2)
    from that(2) have sub: "fst ` set fs \<subseteq> {0..<?n}" by (rule equalityD1)
    have "0 \<in> {0..<?n}" using ne by simp
    then have "0 \<in> fst ` set fs" by (simp only: that(2))
    then have "fs \<noteq> []" by auto
    with that(2) have c: "fst ` set fs = {0..<?n} \<and> fs \<noteq> []" ..
    have images: "map the (fillImages ?calls fs (replicate ?n None)) =
        map (\<lambda>j. \<lparr>hairstyleName = name (suggestions a ! (sorted_list_of_set (set ?sel) ! j)),
                   imageUrl = the (map_of fs j)\<rparr>) [0..<?n]"
      unfolding fillImages_complete [OF that]
      by (rule map_cong) (simp_all add: name_nth)
    show ?thesis
      unfolding run.simps click fulfilled [OF that(1) sub] if_P [OF c] images
      by (simp add: generateSelected_resolved_def)
  qed
  have failed: "app (run (ClickGenerate # map (fulfil ?b) fs @ RenderRejected ?b j message # later) w) =
      ?s\<lparr>errorMsg := Some (if message = [] then ''Failed to generate images.'' else message),
        appState := ERROR\<rparr>"
    if hyp: "distinct (map fst fs) \<and> fst ` set fs \<subseteq> {0..<?n} \<and> j < ?n \<and>
        j \<notin> fst ` set fs \<and> list_all (settlesBatch ?b) later" for fs j message later
  proof -
    from hyp have that: "distinct (map fst fs)" "fst ` set fs \<subseteq> {0..<?n}" "j < ?n"
      "j \<notin> fst ` set fs" "list_all (settlesBatch ?b) later"
      by blast+
    let ?images = "fillImages ?calls fs (replicate ?n None)"
    let ?w2 = "?w1\<lparr>renderBatches := (renderBatches ?w1)
                 (?b \<mapsto> \<lparr>batchCalls = ?calls, batchImages = ?images\<rparr>)\<rparr>"
    let ?w3 = "?w2\<lparr>app := generateSelected_rejected message (app ?w2),
                 renderBatches := (renderBatches ?w2)(?b := None)\<rparr>"
    have "j \<in> {0..<?n}" using that(3) by simp
    with that(4) have "fst ` set fs \<noteq> {0..<?n}" by blast
    then have c: "\<not> (fst ` set fs = {0..<?n} \<and> fs \<noteq> [])" by blast
    have w2: "run (map (fulfil ?b) fs) ?w1 = ?w2"
      unfolding fulfilled [OF that(1,2)] if_not_P [OF c] ..
    from that(4) have "map_of fs j = None" by (simp add: map_of_eq_None_iff)
    then have "?images ! j = None"
      using fillImages_nth [OF that(1), of j "replicate ?n None" ?calls] that(3) by simp
    then have w3: "step (RenderRejected ?b j message) ?w2 = ?w3"
      using that(3) by (simp add: renderRejected_def len)
    have "renderBatches ?w3 ?b = None" by simp
    then have "run later ?w3 = ?w3"
      using that(5) by (rule run_settled)
    then have "run (ClickGenerate # map (fulfil ?b) fs @ RenderRejected ?b j message # later) w = ?w3"
      by (simp only: run.simps run_append click w2 w3)
    then show ?thesis
      by (simp add: generateSelected_rejected_def)
  qed
  show ?thesis
    by (intro conjI allI impI) (rule len names click | erule pending complete failed)+
qed

theorem generateSelected_all_or_nothing_witness:
  "appState (app (run selectionTrace initialWorld)) = SELECTION \<and>
   selectedIndices (app (run selectionTrace initialWorld)) = [2, 0] \<and>
   map (\<lambda>call. fst (snd call)) (renderCallsOf (app (run selectionTrace initialWorld))) =
     [''Textured Crop'', ''Long Layers''] \<and>
   appState (app (run (ClickGenerate # map (fulfil 0) [(1, ''url-b'')])
     (run selectionTrace initialWorld))) = GENERATING \<and>
   generatedImages (app (run (ClickGenerate # map (fulfil 0) [(1, ''url-b''), (0, ''url-a'')])
     (run selectionTrace initialWorld))) =
     [\<lparr>hairstyleName = ''Textured Crop'', imageUrl = ''url-a''\<rparr>,
      \<lparr>hairstyleName = ''Long Layers'', imageUrl = ''url-b''\<rparr>] \<and>
   appState (app (run (ClickGenerate # map (fulfil 0) [(1, ''url-b''), (0, ''url-a'')])
     (run selectionTrace initialWorld))) = RESULTS \<and>
   appState (app (run (ClickGenerate # map (fulfil 0) [(1, ''url-b'')]
       @ RenderRejected 0 0 ''quota'' # [RenderFulfilled 0 0 ''late''])
     (run selectionTrace initialWorld))) = ERROR \<and>
   generatedImages (app (run (ClickGenerate # map (fulfil 0) [(1, ''url-b'')]
       @ RenderRejected 0 0 ''quota'' # [RenderFulfilled 0 0 ''late''])
     (run selectionTrace initialWorld))) = []"
proof -
  let ?w = "run selectionTrace initialWorld"
  have view: "appState (app ?w) = SELECTION"
    and result: "analysisResult (app ?w) = Some sampleAnalysis"
    and size: "1 \<le> length (selectedIndices (app ?w))" "length (selectedIndices (app ?w)) \<le> 2"
    and dist: "distinct (selectedIndices (app ?w))"
    and valid: "\<forall>i\<in>set (selectedIndices (app ?w)). i < length (suggestions sampleAnalysis)"
    by (simp_all add: selectionTrace_app sampleAnalysis_def)
  note inst = generateSelected_all_or_nothing [OF view result size dist valid,
      unfolded selectionTrace_nextBatch]
  note namesI = inst [THEN conjunct2, THEN conjunct1]
  note pendingI = inst [THEN conjunct2, THEN conjunct2, THEN conjunct2, THEN conjunct1,
      rule_format]
  note completeI = inst [THEN conjunct2, THEN conjunct2, THEN conjunct2, THEN conjunct2,
      THEN conjunct1, rule_format]
  note failedI = inst [THEN conjunct2, THEN conjunct2, THEN conjunct2, THEN conjunct2,
      THEN conjunct2, rule_format]
  have sorted: "sorted_list_of_set (set (selectedIndices (app ?w))) = [0, 2]"
    by (simp add: selectionTrace_app sorted_list_of_set_sort_remdups)
  have len: "length (selectedIndices (app ?w)) = 2"
    by (simp add: selectionTrace_app)
  have "{0..<2::nat} = {0, 1}" by auto
  note sets = this len
  have names: "map (\<lambda>call. fst (snd call)) (renderCallsOf (app ?w)) =
      [''Textured Crop'', ''Long Layers'']"
    unfolding namesI sorted by (simp add: sampleAnalysis_def)
  have eq1: "app (run (ClickGenerate # map (fulfil 0) [(1, ''url-b'')]) ?w) =
        (app ?w)\<lparr>appState := GENERATING\<rparr>"
    by (rule pendingI) (auto simp: sets)
  have pending: "appState (app (run (ClickGenerate # map (fulfil 0) [(1, ''url-b'')]) ?w)) =
      GENERATING"
    unfolding eq1 by simp
  have eq2: "app (run (ClickGenerate # map (fulfil 0) [(1, ''url-b''), (0, ''url-a'')]) ?w) =
      (app ?w)\<lparr>generatedImages :=
          map (\<lambda>j. \<lparr>hairstyleName =
                       name (suggestions sampleAnalysis !
                         (sorted_list_of_set (set (selectedIndices (app ?w))) ! j)),
                     imageUrl = the (map_of [(1, ''url-b''), (0, ''url-a'')] j)\<rparr>)
            [0..<length (selectedIndices (app ?w))],
        appState := RESULTS\<rparr>"
    by (rule completeI) (auto simp: sets)
  have upt: "[0..<2] = [0, Suc 0]"
    by (simp add: numeral_2_eq_2)
  have complete:
    "generatedImages (app (run (ClickGenerate # map (fulfil 0) [(1, ''url-b''), (0, ''url-a'')]) ?w)) =
       [\<lparr>hairstyleName = ''Textured Crop'', imageUrl = ''url-a''\<rparr>,
        \<lparr>hairstyleName = ''Long Layers'', imageUrl = ''url-b''\<rparr>]"
    "appState (app (run (ClickGenerate # map (fulfil 0) [(1, ''url-b''), (0, ''url-a'')]) ?w)) = RESULTS"
    unfolding eq2 by (simp_all add: sorted len sampleAnalysis_def upt)
  have eq3: "app (run (ClickGenerate # map (fulfil 0) [(1, ''url-b'')]
       @ RenderRejected 0 0 ''quota'' # [RenderFulfilled 0 0 ''late'']) ?w) =
      (app ?w)\<lparr>errorMsg :=
          Some (if ''quota'' = [] then ''Failed to generate images.'' else ''quota''),
        appState := ERROR\<rparr>"
    by (rule failedI) (auto simp: sets)
  have failed:
    "appState (app (run (ClickGenerate # map (fulfil 0) [(1, ''url-b'')]
       @ RenderRejected 0 0 ''quota'' # [RenderFulfilled 0 0 ''late'']) ?w)) = ERROR"
    "generatedImages (app (run (ClickGenerate # map (fulfil 0) [(1, ''url-b'')]
       @ RenderRejected 0 0 ''quota'' # [RenderFulfilled 0 0 ''late'']) ?w)) = []"
    unfolding eq3 by (simp_all add: selectionTrace_app)
  from view names pending complete failed show ?thesis
    by (simp only: selectionTrace_app App.simps simp_thms)
qed

section \<open>Calls that settle after a reset\<close>

text \<open>
  C3, as claimed, fails: nothing ties a settling call to the attempt that issued it.
  In the first run the camera permission is denied while the analysis is in flight,
  the user resets from the error view, and the analysis result that arrives afterwards
  moves the idle flow to \<open>SELECTION\<close>; in the second run the same happens to a render
  call, which moves the idle flow to \<open>RESULTS\<close>.
\<close>

theorem stale_resolution_counterexample:
  "appState (app (run resetWhileAnalyzing initialWorld)) = IDLE \<and>
   analysisResult (app (run resetWhileAnalyzing initialWorld)) = None \<and>
   analysisCalls (run resetWhileAnalyzing initialWorld) 0 =
     Some [''data:,'', ''data:,'', ''data:,''] \<and>
   appState (app (run (resetWhileAnalyzing @ [AnalysisFulfilled 0 sampleAnalysis])
     initialWorld)) = SELECTION \<and>
   analysisResult (app (run (resetWhileAnalyzing @ [AnalysisFulfilled 0 sampleAnalysis])
     initialWorld)) = Some sampleAnalysis \<and>
   appState (app (run resetWhileGenerating initialWorld)) = IDLE \<and>
   generatedImages (app (run resetWhileGenerating initialWorld)) = [] \<and>
   renderBatches (run resetWhileGenerating initialWorld) 0 =
     Some \<lparr>batchCalls = [(Some ''data:,'', ''Textured Crop'', ''Short sides'')],
           batchImages = [None]\<rparr> \<and>
   appState (app (run (resetWhileGenerating @ [RenderFulfilled 0 0 ''url''])
     initialWorld)) = RESULTS \<and>
   generatedImages (app (run (resetWhileGenerating @ [RenderFulfilled 0 0 ''url''])
     initialWorld)) = [\<lparr>hairstyleName = ''Textured Crop'', imageUrl = ''url''\<rparr>]"
  by (simp add: resetWhileAnalyzing_def resetWhileGenerating_def flow_defs Let_def
      sampleAnalysis_def)

text \<open>
  C3, amended: a reset neither cancels nor forgets the calls in flight, and their
  settling is applied to whatever state the flow is in by then. An analysis call in
  flight at a reset is still in flight after it; when it is fulfilled the result is
  stored, the selection emptied and the state set to \<open>SELECTION\<close>; when it is rejected
  the message is stored and the state set to \<open>ERROR\<close>. A render call in flight at a
  reset is still in flight after it; its rejection stores the message and sets
  \<open>ERROR\<close>, and its fulfilment, when it completes the batch, stores the images of the
  batch and sets \<open>RESULTS\<close>.
\<close>

theorem stale_resolution_applies_after_reset:
  "(analysisCalls w k = Some images \<longrightarrow>
      analysisCalls (step ClickReset w) k = Some images \<and>
      app (step (AnalysisFulfilled k analysis) (step ClickReset w)) =
        (app (step ClickReset w))
          \<lparr>analysisResult := Some analysis, selectedIndices := [], appState := SELECTION\<rparr> \<and>
      app (step (AnalysisRejected k message) (step ClickReset w)) =
        (app (step ClickReset w))
          \<lparr>errorMsg := Some (if message = [] then ''Failed to analyze face.'' else message),
            appState := ERROR\<rparr>) \<and>
   (renderBatches w b = Some batch \<and> i < length (batchCalls batch) \<and>
    batchImages batch ! i = None \<longrightarrow>
      renderBatches (step ClickReset w) b = Some batch \<and>
      app (step (RenderRejected b i message) (step ClickReset w)) =
        (app (step ClickReset w))
          \<lparr>errorMsg := Some (if message = [] then ''Failed to generate images.'' else message),
            appState := ERROR\<rparr> \<and>
      (list_all (\<lambda>image. image \<noteq> None)
         ((batchImages batch)[i := Some \<lparr>hairstyleName = fst (snd (batchCalls batch ! i)),
                                         imageUrl = url\<rparr>]) \<longrightarrow>
       app (step (RenderFulfilled b i url) (step ClickReset w)) =
         (app (step ClickReset w))
           \<lparr>generatedImages :=
               map the ((batchImages batch)
                 [i := Some \<lparr>hairstyleName = fst (snd (batchCalls batch ! i)),
                             imageUrl = url\<rparr>]),
             appState := RESULTS\<rparr>))"
proof (intro conjI impI)
  assume "analysisCalls w k = Some images"
  then have call: "analysisCalls (step ClickReset w) k = Some images"
    by simp
  then show "analysisCalls (step ClickReset w) k = Some images" .
  from call show "app (step (AnalysisFulfilled k analysis) (step ClickReset w)) =
        (app (step ClickReset w))
          \<lparr>analysisResult := Some analysis, selectedIndices := [], appState := SELECTION\<rparr>"
    by (simp add: analysisFulfilled_def performAnalysis_resolved_def del: step.simps(3))
  from call show "app (step (AnalysisRejected k message) (step ClickReset w)) =
        (app (step ClickReset w))
          \<lparr>errorMsg := Some (if message = [] then ''Failed to analyze face.'' else message),
            appState := ERROR\<rparr>"
    by (simp add: analysisRejected_def performAnalysis_rejected_def del: step.simps(3))
next
  assume "renderBatches w b = Some batch \<and> i < length (batchCalls batch) \<and>
    batchImages batch ! i = None"
  then have batch: "renderBatches (step ClickReset w) b = Some batch"
    and i: "i < length (batchCalls batch)" "batchImages batch ! i = None"
    by simp_all
  from batch show "renderBatches (step ClickReset w) b = Some batch" .
  from batch i show "app (step (RenderRejected b i message) (step ClickReset w)) =
        (app (step ClickReset w))
          \<lparr>errorMsg := Some (if message = [] then ''Failed to generate images.'' else message),
            appState := ERROR\<rparr>"
    by (simp add: renderRejected_def generateSelected_rejected_def del: step.simps(3))
  assume "list_all (\<lambda>image. image \<noteq> None)
         ((batchImages batch)[i := Some \<lparr>hairstyleName = fst (snd (batchCalls batch ! i)),
                                         imageUrl = url\<rparr>])"
  with batch i show "app (step (RenderFulfilled b i url) (step ClickReset w)) =
         (app (step ClickReset w))
           \<lparr>generatedImages :=
               map the ((batchImages batch)
                 [i := Some \<lparr>hairstyleName = fst (snd (batchCalls batch ! i)),
                             imageUrl = url\<rparr>]),
             appState := RESULTS\<rparr>"
    by (simp add: renderFulfilled_def generateSelected_resolved_def Let_def del: step.simps(3))
qed

lemma bothInFlight_world:
  "run bothInFlight initialWorld =
     \<lparr>app = \<lparr>appState = ERROR, capturedImages = [''data:,'', ''data:,'', ''data:,''],
             captureStep = 2, analysisResult = Some sampleAnalysis, selectedIndices = [0],
             generatedImages = [],
             errorMsg = Some ''Could not access camera. Please ensure permissions are granted.'',
             streamRef = None, streams = (\<lambda>_. [])\<rparr>,
      mediaRequests = 0, nextStream = 0,
      analysisCalls = [0 \<mapsto> [''data:,'', ''data:,'', ''data:,'']], nextAnalysis = 2,
      renderBatches =
        [0 \<mapsto> \<lparr>batchCalls = [(Some ''data:,'', ''Textured Crop'', ''Short sides'')],
                   batchImages = [None]\<rparr>],
      nextBatch = 1,
      analyzeLog = [[''data:,'', ''data:,'', ''data:,''], [''data:,'', ''data:,'', ''data:,'']],
      downloads = []\<rparr>"
  by (simp add: bothInFlight_def flow_defs Let_def sampleAnalysis_def fun_upd_twist)

theorem stale_resolution_applies_after_reset_witness:
  "analysisCalls (run bothInFlight initialWorld) 0 = Some [''data:,'', ''data:,'', ''data:,''] \<and>
   renderBatches (run bothInFlight initialWorld) 0 =
     Some \<lparr>batchCalls = [(Some ''data:,'', ''Textured Crop'', ''Short sides'')],
           batchImages = [None]\<rparr> \<and>
   appState (app (step ClickReset (run bothInFlight initialWorld))) = IDLE \<and>
   appState (app (step (AnalysisFulfilled 0 sampleAnalysis)
     (step ClickReset (run bothInFlight initialWorld)))) = SELECTION \<and>
   appState (app (step (RenderFulfilled 0 0 ''url'')
     (step ClickReset (run bothInFlight initialWorld)))) = RESULTS \<and>
   appState (app (step (RenderRejected 0 0 ''quota'')
     (step ClickReset (run bothInFlight initialWorld)))) = ERROR"
proof -
  let ?w = "run bothInFlight initialWorld"
  let ?batch = "\<lparr>batchCalls = [(Some ''data:,'', ''Textured Crop'', ''Short sides'')],
           batchImages = [None]\<rparr>"
  have call: "analysisCalls ?w 0 = Some [''data:,'', ''data:,'', ''data:,'']"
    and batch: "renderBatches ?w 0 = Some ?batch \<and> 0 < length (batchCalls ?batch) \<and>
      batchImages ?batch ! 0 = None"
    and full: "list_all (\<lambda>image. image \<noteq> None)
         ((batchImages ?batch)[0 := Some \<lparr>hairstyleName = fst (snd (batchCalls ?batch ! 0)),
                                         imageUrl = ''url''\<rparr>])"
    and reset: "appState (app (step ClickReset ?w)) = IDLE"
    by (simp_all add: bothInFlight_world resetApp_def stopCamera_def)
  note inst = stale_resolution_applies_after_reset
    [of ?w 0 "[''data:,'', ''data:,'', ''data:,'']" sampleAnalysis "''quota''" 0 ?batch 0 "''url''"]
  from inst call have "app (step (AnalysisFulfilled 0 sampleAnalysis) (step ClickReset ?w)) =
        (app (step ClickReset ?w))
          \<lparr>analysisResult := Some sampleAnalysis, selectedIndices := [], appState := SELECTION\<rparr>"
    by blast
  then have a: "appState (app (step (AnalysisFulfilled 0 sampleAnalysis) (step ClickReset ?w))) = SELECTION"
    by (simp del: step.simps)
  from inst batch full have "app (step (RenderFulfilled 0 0 ''url'') (step ClickReset ?w)) =
         (app (step ClickReset ?w))
           \<lparr>generatedImages :=
               map the ((batchImages ?batch)
                 [0 := Some \<lparr>hairstyleName = fst (snd (batchCalls ?batch ! 0)),
                             imageUrl = ''url''\<rparr>]),
             appState := RESULTS\<rparr>"
    by blast
  then have b: "appState (app (step (RenderFulfilled 0 0 ''url'') (step ClickReset ?w))) = RESULTS"
    by (simp del: step.simps)
  from inst batch have "app (step (RenderRejected 0 0 ''quota'') (step ClickReset ?w)) =
        (app (step ClickReset ?w))
          \<lparr>errorMsg := Some (if ''quota'' = [] then ''Failed to generate images.'' else ''quota''),
            appState := ERROR\<rparr>"
    by blast
  then have c: "appState (app (step (RenderRejected 0 0 ''quota'') (step ClickReset ?w))) = ERROR"
    by (simp del: step.simps)
  from call batch reset a b c show ?thesis by blast
qed

section \<open>The remote clients: credential and response handling\<close>

lemma getAiClient_no_key:
  assumes "\<not> truthy (envVar (process_env env) ''API_KEY'')"
    and "\<not> truthy (envVar (import_meta_env env) ''VITE_API_KEY'')"
  shows "getAiClient env =
     Inl (Error ''API Key is missing. Please check your .env file or environment configuration.'')"
  using assms by (simp add: getAiClient_def lookupApiKey_def Let_def truthy_def)

lemma getAiClient_key: "getAiClient env = Inr ai \<Longrightarrow> apiKey ai \<noteq> []"
  by (cases "lookupApiKey env") (auto simp: getAiClient_def truthy_def split: if_splits)

lemma requests_carry_key:
  "list_all (\<lambda>sent. apiKey (fst sent) \<noteq> [])
     (snd (analyzeFace env JSON_parse generateContent base64Images))"
  "list_all (\<lambda>sent. apiKey (fst sent) \<noteq> [])
     (snd (generateHairstyleImage env generateContent base64Image hairstyle hairstyleDescription))"
proof -
  show "list_all (\<lambda>sent. apiKey (fst sent) \<noteq> [])
     (snd (analyzeFace env JSON_parse generateContent base64Images))"
  proof (cases "getAiClient env")
    case (Inl e)
    then show ?thesis by (simp add: analyzeFace_def)
  next
    case (Inr ai)
    from getAiClient_key [OF this] Inr show ?thesis
      by (simp add: analyzeFace_def Let_def split: sum.splits option.splits)
  qed
  show "list_all (\<lambda>sent. apiKey (fst sent) \<noteq> [])
     (snd (generateHairstyleImage env generateContent base64Image hairstyle hairstyleDescription))"
  proof (cases "getAiClient env")
    case (Inl e)
    then show ?thesis by (simp add: generateHairstyleImage_def)
  next
    case (Inr ai)
    from getAiClient_key [OF this] Inr show ?thesis
      by (simp add: generateHairstyleImage_def Let_def split: sum.splits option.splits)
  qed
qed

text \<open>
  C8: when neither \<open>process.env.API_KEY\<close> nor \<open>import.meta.env.VITE_API_KEY\<close> holds a
  non-empty key, \<open>analyzeFace\<close> and \<open>generateHairstyleImage\<close> both fail with the
  missing-key error and the list of requests sent to the service is empty; and in
  any environment, every request that either of them sends goes through a client
  with a non-empty key.
\<close>

theorem no_request_without_api_key:
  "(\<not> truthy (envVar (process_env env) ''API_KEY'') \<and>
    \<not> truthy (envVar (import_meta_env env) ''VITE_API_KEY'') \<longrightarrow>
      analyzeFace env JSON_parse generateContent base64Images =
        (Inl (Error ''API Key is missing. Please check your .env file or environment configuration.''), []) \<and>
      generateHairstyleImage env generateContent base64Image hairstyle hairstyleDescription =
        (Inl (Error ''API Key is missing. Please check your .env file or environment configuration.''), [])) \<and>
   list_all (\<lambda>sent. apiKey (fst sent) \<noteq> [])
     (snd (analyzeFace env JSON_parse generateContent base64Images)) \<and>
   list_all (\<lambda>sent. apiKey (fst sent) \<noteq> [])
     (snd (generateHairstyleImage env generateContent base64Image hairstyle hairstyleDescription))"
  by (simp add: requests_carry_key)
    (simp add: analyzeFace_def generateHairstyleImage_def getAiClient_no_key)

lemma getAiClient_keyed: "getAiClient keyedEnvironment = Inr (GoogleGenAI ''secret'')"
  by (simp add: getAiClient_def lookupApiKey_def keyedEnvironment_def envVar_def truthy_def)

theorem no_request_without_api_key_witness:
  "\<not> truthy (envVar (process_env emptyEnvironment) ''API_KEY'') \<and>
   \<not> truthy (envVar (import_meta_env emptyEnvironment) ''VITE_API_KEY'') \<and>
   snd (analyzeFace emptyEnvironment parseNoSuggestions answerNoSuggestions
          [''front'', ''left'', ''right'']) = [] \<and>
   snd (generateHairstyleImage emptyEnvironment answerNoSuggestions ''front''
          ''Quiff'' ''Volume in front'') = [] \<and>
   snd (analyzeFace keyedEnvironment parseNoSuggestions answerNoSuggestions
          [''front'', ''left'', ''right'']) =
     [(GoogleGenAI ''secret'', analysisRequest [''front'', ''left'', ''right''])] \<and>
   list_all (\<lambda>sent. apiKey (fst sent) \<noteq> [])
     (snd (analyzeFace keyedEnvironment parseNoSuggestions answerNoSuggestions
             [''front'', ''left'', ''right'']))"
proof -
  have h: "\<not> truthy (envVar (process_env emptyEnvironment) ''API_KEY'') \<and>
      \<not> truthy (envVar (import_meta_env emptyEnvironment) ''VITE_API_KEY'')"
    by (simp add: emptyEnvironment_def envVar_def truthy_def)
  have sent: "snd (analyzeFace keyedEnvironment parseNoSuggestions answerNoSuggestions
          [''front'', ''left'', ''right'']) =
     [(GoogleGenAI ''secret'', analysisRequest [''front'', ''left'', ''right''])]"
    by (simp add: analyzeFace_def getAiClient_keyed answerNoSuggestions_def Let_def
        truthy_def noSuggestionsText_def parseNoSuggestions_def)
  from no_request_without_api_key [of emptyEnvironment parseNoSuggestions answerNoSuggestions
      "[''front'', ''left'', ''right'']" "''front''" "''Quiff''" "''Volume in front''"] h
  have empty: "snd (analyzeFace emptyEnvironment parseNoSuggestions answerNoSuggestions
          [''front'', ''left'', ''right'']) = [] \<and>
   snd (generateHairstyleImage emptyEnvironment answerNoSuggestions ''front''
          ''Quiff'' ''Volume in front'') = []"
    by simp
  from no_request_without_api_key [of keyedEnvironment parseNoSuggestions answerNoSuggestions
      "[''front'', ''left'', ''right'']" "''front''" "''Quiff''" "''Volume in front''"]
  have keyed: "list_all (\<lambda>sent. apiKey (fst sent) \<noteq> [])
     (snd (analyzeFace keyedEnvironment parseNoSuggestions answerNoSuggestions
             [''front'', ''left'', ''right'']))"
    by blast
  from h empty sent keyed show ?thesis by blast
qed

text \<open>
  C2, as claimed, fails: the service answers with a well-formed object that has no
  suggestions at all, and \<open>analyzeFace\<close> returns it as its result although it does not
  have the shape of the contract.
\<close>

theorem analyzeFace_unchecked_shape_counterexample:
  "fst (analyzeFace keyedEnvironment parseNoSuggestions answerNoSuggestions
          [''front'', ''left'', ''right'']) = Inr noSuggestionsValue \<and>
   \<not> contractShape noSuggestionsValue"
  by (simp add: analyzeFace_def getAiClient_keyed answerNoSuggestions_def truthy_def
      parseNoSuggestions_def noSuggestionsText_def noSuggestionsValue_def contractShape_def)

text \<open>
  C2, amended: \<open>analyzeFace\<close> fails with the error of \<open>getAiClient\<close> or of the request
  when one of them fails; with a client and an answer from the service, it fails
  with \<open>No analysis generated.\<close> when the response carries no text or an empty one,
  fails with the parser's \<open>SyntaxError\<close> when the text does not parse, and otherwise
  returns the parsed value whole, whatever its shape; and it returns a result only in
  that last case, so a failure never comes with a partial result. That the value has
  a face shape and exactly five complete suggestions is left to the remote contract.
\<close>

theorem analyzeFace_all_or_nothing:
  "(\<forall>e. getAiClient env = Inl e \<longrightarrow>
      fst (analyzeFace env JSON_parse generateContent base64Images) = Inl e) \<and>
   (\<forall>e. getAiClient env = Inr ai \<and>
      generateContent ai (analysisRequest base64Images) = Inl e \<longrightarrow>
      fst (analyzeFace env JSON_parse generateContent base64Images) = Inl e) \<and>
   (getAiClient env = Inr ai \<and>
    generateContent ai (analysisRequest base64Images) = Inr response \<longrightarrow>
      (\<not> truthy (responseText response) \<longrightarrow>
         fst (analyzeFace env JSON_parse generateContent base64Images) =
           Inl (Error ''No analysis generated.'')) \<and>
      (\<forall>payload. responseText response = Some payload \<and> payload \<noteq> [] \<longrightarrow>
         fst (analyzeFace env JSON_parse generateContent base64Images) =
           (case JSON_parse payload of None \<Rightarrow> Inl SyntaxError | Some result \<Rightarrow> Inr result))) \<and>
   (\<forall>result. fst (analyzeFace env JSON_parse generateContent base64Images) = Inr result \<longrightarrow>
      (\<exists>ai response payload.
         getAiClient env = Inr ai \<and>
         generateContent ai (analysisRequest base64Images) = Inr response \<and>
         responseText response = Some payload \<and> payload \<noteq> [] \<and>
         JSON_parse payload = Some result))"
  by (auto simp: analyzeFace_def Let_def truthy_def split: sum.splits option.splits if_splits)

theorem analyzeFace_all_or_nothing_witness:
  "getAiClient keyedEnvironment = Inr (GoogleGenAI ''secret'') \<and>
   answerNoSuggestions (GoogleGenAI ''secret'') (analysisRequest [''front'', ''left'', ''right'']) =
     Inr \<lparr>responseText = Some noSuggestionsText, candidates = None\<rparr> \<and>
   fst (analyzeFace keyedEnvironment parseNoSuggestions answerNoSuggestions
          [''front'', ''left'', ''right'']) = Inr noSuggestionsValue \<and>
   fst (analyzeFace keyedEnvironment (\<lambda>payload. None) answerNoSuggestions
          [''front'', ''left'', ''right'']) = Inl SyntaxError"
proof -
  let ?response = "\<lparr>responseText = Some noSuggestionsText, candidates = None\<rparr>"
  have client: "getAiClient keyedEnvironment = Inr (GoogleGenAI ''secret'')"
    by (rule getAiClient_keyed)
  have answer: "answerNoSuggestions (GoogleGenAI ''secret'')
      (analysisRequest [''front'', ''left'', ''right'']) = Inr ?response"
    by (simp add: answerNoSuggestions_def)
  have payload: "responseText ?response = Some noSuggestionsText \<and> noSuggestionsText \<noteq> []"
    by (simp add: noSuggestionsText_def)
  from analyzeFace_all_or_nothing [where env = keyedEnvironment
      and ai = "GoogleGenAI ''secret''" and generateContent = answerNoSuggestions
      and base64Images = "[''front'', ''left'', ''right'']" and response = ?response
      and JSON_parse = parseNoSuggestions]
    client answer payload
  have "fst (analyzeFace keyedEnvironment parseNoSuggestions answerNoSuggestions
          [''front'', ''left'', ''right'']) =
        (case parseNoSuggestions noSuggestionsText of
           None \<Rightarrow> Inl SyntaxError | Some result \<Rightarrow> Inr result)"
    by blast
  then have ok: "fst (analyzeFace keyedEnvironment parseNoSuggestions answerNoSuggestions
          [''front'', ''left'', ''right'']) = Inr noSuggestionsValue"
    by (simp add: parseNoSuggestions_def)
  from analyzeFace_all_or_nothing [where env = keyedEnvironment
      and ai = "GoogleGenAI ''secret''" and generateContent = answerNoSuggestions
      and base64Images = "[''front'', ''left'', ''right'']" and response = ?response
      and JSON_parse = "\<lambda>payload. None"]
    client answer payload
  have "fst (analyzeFace keyedEnvironment (\<lambda>payload. None) answerNoSuggestions
          [''front'', ''left'', ''right'']) =
        (case (\<lambda>payload. None) noSuggestionsText of
           None \<Rightarrow> Inl SyntaxError | Some result \<Rightarrow> Inr result)"
    by blast
  then have bad: "fst (analyzeFace keyedEnvironment (\<lambda>payload. None) answerNoSuggestions
          [''front'', ''left'', ''right'']) = Inl SyntaxError"
    by simp
  from client answer ok bad show ?thesis by blast
qed

section \<open>The download file name\<close>

lemma hyphen_not_space [simp]: "\<not> isWhiteSpace CHR ''-''"
  by (simp add: isWhiteSpace_def)








text \<open>
  Beyond ASCII: a no-break space between letters becomes a hyphen, an accented capital
  is lower-cased, a run of a space and a tab gives one hyphen, and the multiplication
  sign stays.
\<close>

lemma downloadFilename_latin1:
  "downloadFilename [CHR 0x41, CHR 0xA0, CHR 0x42] = ''styleai-a-b.png''"
  "downloadFilename [CHR 0xC9, CHR 0x20, CHR 0x09, CHR 0xD7] =
     ''styleai-'' @ [CHR 0xE9, CHR ''-'', CHR 0xD7] @ ''.png''"
  by (simp_all add: downloadFilename_def toLowerCase_def toLowerCaseChar_def isUpperCase_def
      isWhiteSpace_def char_of_def bit_0)







end
